theory Spec2Isabelle
  imports Main "HOL-Library.AList" "HOL-Library.Char_ord" "HOL-Library.List_Lexorder"
    "HOL-Library.Sublist"
begin

section \<open>Values and transactions\<close>

text \<open>
  Transactions are Python dictionaries with string keys. The values that occur in them are
  \<^verbatim>\<open>None\<close>, integers, strings, lists and nested dictionaries. A dictionary is an association
  list in insertion order; \<^const>\<open>map_of\<close> reads it and \<^const>\<open>AList.update\<close> assigns to a key
  (in place when the key is present, at the end otherwise), as Python does.
  Booleans and floats are outside the model.
\<close>

datatype pyval = PNone | PInt int | PStr string | PList "pyval list"
  | PDict "(string \<times> pyval) list"

type_synonym txn = "(string \<times> pyval) list"

text \<open>
  \<^verbatim>\<open>json.dumps(tx, sort_keys=True)\<close>: on these values the JSON text is determined by, and
  determines, the value with the keys of every dictionary sorted. The model uses that
  normal form in place of the text.
\<close>

fun canon_val :: "pyval \<Rightarrow> pyval" where
  "canon_val (PList vs) = PList (map canon_val vs)"
| "canon_val (PDict kvs) = PDict (sort_key fst (map (map_prod id canon_val) kvs))"
| "canon_val v = v"

definition canonical :: "txn \<Rightarrow> txn" where
  "canonical tx = sort_key fst (map (map_prod id canon_val) tx)"

text \<open>Python's \<^verbatim>\<open>==\<close> on two values: dictionaries compare without regard to order.\<close>

definition py_eq :: "pyval \<Rightarrow> pyval \<Rightarrow> bool" where
  "py_eq x y = (canon_val x = canon_val y)"

text \<open>\<^verbatim>\<open>tx.get(k)\<close>, \<^verbatim>\<open>tx.get(k, d)\<close> and \<^verbatim>\<open>k in tx\<close>.\<close>

definition tx_get :: "txn \<Rightarrow> string \<Rightarrow> pyval" where
  "tx_get tx k = (case map_of tx k of None \<Rightarrow> PNone | Some v \<Rightarrow> v)"

definition tx_get_default :: "txn \<Rightarrow> string \<Rightarrow> pyval \<Rightarrow> pyval" where
  "tx_get_default tx k d = (case map_of tx k of None \<Rightarrow> d | Some v \<Rightarrow> v)"

definition has_key :: "txn \<Rightarrow> string \<Rightarrow> bool" where
  "has_key tx k = (case map_of tx k of None \<Rightarrow> False | Some v \<Rightarrow> True)"

text \<open>Lists and dictionaries cannot be dictionary keys: using one raises \<^verbatim>\<open>TypeError\<close>.\<close>

fun hashable :: "pyval \<Rightarrow> bool" where
  "hashable (PList vs) = False"
| "hashable (PDict kvs) = False"
| "hashable v = True"

fun truthy :: "pyval \<Rightarrow> bool" where
  "truthy PNone = False"
| "truthy (PInt i) = (i \<noteq> 0)"
| "truthy (PStr s) = (s \<noteq> [])"
| "truthy (PList vs) = (vs \<noteq> [])"
| "truthy (PDict kvs) = (kvs \<noteq> [])"

datatype error = TypeError | KeyError | UnboundLocalError

definition TX_TRANSFER_ECASH :: string where
  "TX_TRANSFER_ECASH = ''TRANSFER_ECASH''"

definition SYSTEM_ACCOUNT :: string where
  "SYSTEM_ACCOUNT = ''SYSTEM_BANK_001''"

definition INITIAL_SYSTEM_BALANCE :: int where
  "INITIAL_SYSTEM_BALANCE = 1000000"

definition USERS :: "string list" where
  "USERS = [''dr_alice'', ''lab_tech_bob'', ''pharm_charlie'']"

section \<open>blockchain\_core.py\<close>

record block =
  index :: int
  timestamp :: string
  transactions :: "txn list"
  previous_hash :: string
  nonce :: int
  hash :: string

text \<open>
  \<^verbatim>\<open>calculate_hash\<close> applies SHA-256 to the JSON text of the five fields. The digest function
  is a parameter \<open>H\<close> of the model, applied to the five fields with the transactions in
  canonical form. (The \<^verbatim>\<open>except TypeError\<close> branch needs a value that JSON cannot encode;
  there is none among \<^typ>\<open>pyval\<close>.)
\<close>

type_synonym block_string = "int \<times> string \<times> txn list \<times> string \<times> int"

type_synonym hashfn = "block_string \<Rightarrow> string"

definition calculate_hash :: "hashfn \<Rightarrow> block \<Rightarrow> string" where
  "calculate_hash H b =
     H (index b, timestamp b, map canonical (transactions b), previous_hash b, nonce b)"

text \<open>The constructor \<^verbatim>\<open>Block(index, timestamp, transactions, previous_hash)\<close>.\<close>

definition Block :: "hashfn \<Rightarrow> int \<Rightarrow> string \<Rightarrow> txn list \<Rightarrow> string \<Rightarrow> block" where
  "Block H i ts txs ph =
     (let b = \<lparr>index = i, timestamp = ts, transactions = txs, previous_hash = ph,
                nonce = 0, hash = []\<rparr>
      in b\<lparr>hash := calculate_hash H b\<rparr>)"

definition create_genesis_block :: "hashfn \<Rightarrow> string \<Rightarrow> block list \<Rightarrow> block list" where
  "create_genesis_block H ts chain =
     (if chain = []
      then chain @ [Block H 0 ts [[(''type'', PStr ''genesis''),
                                   (''details'', PStr ''The beginning'')]] ''0'']
      else chain)"

definition get_latest_block :: "block list \<Rightarrow> block option" where
  "get_latest_block chain = (if chain = [] then None else Some (last chain))"

text \<open>\<^verbatim>\<open>add_block\<close> returns the chain as it is afterwards and the boolean it reports.\<close>

definition add_block :: "block list \<Rightarrow> block \<Rightarrow> block list \<times> bool" where
  "add_block chain b =
     (case get_latest_block chain of
        Some latest_block \<Rightarrow>
          if previous_hash b = hash latest_block \<and> index b = index latest_block + 1
          then (chain @ [b], True) else (chain, False)
      | None \<Rightarrow> if index b = 0 then (chain @ [b], True) else (chain, False))"

text \<open>The loop of \<^verbatim>\<open>is_chain_valid\<close> over the positions \<open>1 ..< len\<close>, given the block before.\<close>

fun links_valid :: "hashfn \<Rightarrow> block \<Rightarrow> block list \<Rightarrow> bool" where
  "links_valid H previous_block [] = True"
| "links_valid H previous_block (current_block # rest) =
     (if hash current_block \<noteq> calculate_hash H current_block then False
      else if previous_hash current_block \<noteq> hash previous_block then False
      else if index current_block \<noteq> index previous_block + 1 then False
      else links_valid H current_block rest)"

text \<open>
  \<^verbatim>\<open>is_chain_valid(self, chain_to_validate=None)\<close>: the second argument is the object's own
  chain. The target is the argument when it is truthy, the own chain otherwise.
\<close>

definition is_chain_valid :: "hashfn \<Rightarrow> block list \<Rightarrow> block list option \<Rightarrow> bool" where
  "is_chain_valid H self_chain chain_to_validate =
     (let target_chain =
            (case chain_to_validate of
               None \<Rightarrow> self_chain
             | Some c \<Rightarrow> if c \<noteq> [] then c else self_chain)
      in case target_chain of
           [] \<Rightarrow> False
         | b0 # rest \<Rightarrow>
             if index b0 \<noteq> 0 then False
             else if previous_hash b0 \<noteq> ''0'' then False
             else if hash b0 \<noteq> calculate_hash H b0 then False
             else links_valid H b0 rest)"

section \<open>The ledger (node\_common.py)\<close>

text \<open>
  A balance dictionary, keyed by whatever \<^verbatim>\<open>tx.get('from')\<close> and \<^verbatim>\<open>tx.get('to')\<close> return
  (\<^verbatim>\<open>None\<close> when the key is missing).
\<close>

type_synonym ledger = "(pyval \<times> int) list"

text \<open>\<^verbatim>\<open>{user: 0 for user in USERS}\<close> with the system account's allocation added.\<close>

definition initial_balances :: ledger where
  "initial_balances =
     map (\<lambda>user. (PStr user, 0)) USERS @ [(PStr SYSTEM_ACCOUNT, INITIAL_SYSTEM_BALANCE)]"

text \<open>\<^verbatim>\<open>balances.get(k, 0)\<close>.\<close>

definition bal_get :: "ledger \<Rightarrow> pyval \<Rightarrow> int" where
  "bal_get bal k = (case map_of bal k of None \<Rightarrow> 0 | Some v \<Rightarrow> v)"

text \<open>\<^verbatim>\<open>if k not in balances: balances[k] = 0\<close>.\<close>

definition ensure_account :: "pyval \<Rightarrow> ledger \<Rightarrow> ledger" where
  "ensure_account k bal = (case map_of bal k of None \<Rightarrow> AList.update k 0 bal | Some v \<Rightarrow> bal)"

definition is_transfer :: "txn \<Rightarrow> bool" where
  "is_transfer tx = (tx_get tx ''type'' = PStr TX_TRANSFER_ECASH)"

text \<open>
  The body that \<^verbatim>\<open>_update_balances_from_block\<close>, \<^verbatim>\<open>_recalculate_all_balances\<close>,
  \<^verbatim>\<open>get_balances_up_to_block\<close> and \<^verbatim>\<open>_get_balances_from_chain\<close> run for one transfer:
  \<^verbatim>\<open>
  sender, recipient, amount = tx.get('from'), tx.get('to'), tx.get('amount', 0)
  if sender not in balances: balances[sender] = 0
  if recipient not in balances: balances[recipient] = 0
  balances[sender] -= amount; balances[recipient] += amount
  \<close>
  \<^term>\<open>transfer_steps\<close> lists the contents of the dictionary after each of the four
  assignments that ran, with the exception that stopped them, if any.
\<close>

definition transfer_steps :: "ledger \<Rightarrow> txn \<Rightarrow> ledger list \<times> error option" where
  "transfer_steps bal tx =
     (let sender = tx_get tx ''from''; recipient = tx_get tx ''to'';
          amount = tx_get_default tx ''amount'' (PInt 0)
      in if \<not> hashable sender then ([], Some TypeError)
         else let b1 = ensure_account sender bal
           in if \<not> hashable recipient then ([b1], Some TypeError)
              else let b2 = ensure_account recipient b1
                in case amount of
                     PInt a \<Rightarrow>
                       (let b3 = AList.update sender (bal_get b2 sender - a) b2;
                            b4 = AList.update recipient (bal_get b3 recipient + a) b3
                        in ([b1, b2, b3, b4], None))
                   | _ \<Rightarrow> ([b1, b2], Some TypeError))"

definition apply_transfer :: "ledger \<Rightarrow> txn \<Rightarrow> ledger \<times> error option" where
  "apply_transfer bal tx = (case transfer_steps bal tx of (steps, err) \<Rightarrow> (last (bal # steps), err))"

text \<open>The loop over the transactions of one block, on a dictionary updated in place.\<close>

fun update_loop :: "ledger \<Rightarrow> txn list \<Rightarrow> ledger \<times> error option" where
  "update_loop bal [] = (bal, None)"
| "update_loop bal (tx # txs) =
     (if is_transfer tx
      then (case apply_transfer bal tx of
              (bal', None) \<Rightarrow> update_loop bal' txs
            | (bal', Some e) \<Rightarrow> (bal', Some e))
      else update_loop bal txs)"

text \<open>The loop over the blocks of a chain (\<^verbatim>\<open>_recalculate_all_balances\<close>, \<^verbatim>\<open>_get_balances_from_chain\<close>).\<close>

fun replay_chain :: "ledger \<Rightarrow> block list \<Rightarrow> ledger \<times> error option" where
  "replay_chain bal [] = (bal, None)"
| "replay_chain bal (b # bs) =
     (case update_loop bal (transactions b) of
        (bal', None) \<Rightarrow> replay_chain bal' bs
      | (bal', Some e) \<Rightarrow> (bal', Some e))"

text \<open>The same loop with \<^verbatim>\<open>if block.hash == block_hash: break\<close> (\<^verbatim>\<open>get_balances_up_to_block\<close>).\<close>

fun replay_up_to :: "ledger \<Rightarrow> block list \<Rightarrow> string \<Rightarrow> ledger \<times> error option" where
  "replay_up_to bal [] block_hash = (bal, None)"
| "replay_up_to bal (b # bs) block_hash =
     (case update_loop bal (transactions b) of
        (bal', None) \<Rightarrow> if hash b = block_hash then (bal', None) else replay_up_to bal' bs block_hash
      | (bal', Some e) \<Rightarrow> (bal', Some e))"

text \<open>
  Every state the dictionary goes through while the transactions are replayed, in order.
\<close>

fun replay_trace :: "ledger \<Rightarrow> txn list \<Rightarrow> ledger list" where
  "replay_trace bal [] = []"
| "replay_trace bal (tx # txs) =
     (if is_transfer tx
      then (case transfer_steps bal tx of
              (steps, None) \<Rightarrow> steps @ replay_trace (last (bal # steps)) txs
            | (steps, Some e) \<Rightarrow> steps)
      else replay_trace bal txs)"

text \<open>
  The body that \<^verbatim>\<open>_validate_chain_balances\<close>, the \<^verbatim>\<open>NewBlock\<close> handler and
  \<^verbatim>\<open>mine_block_local\<close> run for one transfer, on a dictionary of their own:
  \<^verbatim>\<open>
  sender, amount = tx.get('from'), tx.get('amount', 0)
  if sender != SYSTEM_ACCOUNT and balances.get(sender, 0) < amount: (reject)
  balances[sender] = balances.get(sender, 0) - amount
  recipient = tx.get('to'); balances[recipient] = balances.get(recipient, 0) + amount
  \<close>
  \<open>Inr None\<close> is the rejection, \<open>Inl\<close> an exception (the dictionary is then dropped).
\<close>

definition spend :: "ledger \<Rightarrow> txn \<Rightarrow> error + ledger option" where
  "spend bal tx =
     (let sender = tx_get tx ''from''; amount = tx_get_default tx ''amount'' (PInt 0)
      in if sender \<noteq> PStr SYSTEM_ACCOUNT \<and> \<not> hashable sender then Inl TypeError
         else case amount of
                PInt a \<Rightarrow>
                  if sender \<noteq> PStr SYSTEM_ACCOUNT \<and> bal_get bal sender < a then Inr None
                  else let b1 = AList.update sender (bal_get bal sender - a) bal;
                           recipient = tx_get tx ''to''
                       in if \<not> hashable recipient then Inl TypeError
                          else Inr (Some (AList.update recipient (bal_get b1 recipient + a) b1))
              | _ \<Rightarrow> Inl TypeError)"

text \<open>The transactions of one block, checked in order; \<open>Inr None\<close> at the first rejection.\<close>

fun validate_txs :: "ledger \<Rightarrow> txn list \<Rightarrow> error + ledger option" where
  "validate_txs bal [] = Inr (Some bal)"
| "validate_txs bal (tx # txs) =
     (if is_transfer tx
      then (case spend bal tx of
              Inl e \<Rightarrow> Inl e
            | Inr None \<Rightarrow> Inr None
            | Inr (Some bal') \<Rightarrow> validate_txs bal' txs)
      else validate_txs bal txs)"

fun validate_blocks :: "ledger \<Rightarrow> block list \<Rightarrow> error + bool" where
  "validate_blocks temp_balances [] = Inr True"
| "validate_blocks temp_balances (b # bs) =
     (case validate_txs temp_balances (transactions b) of
        Inl e \<Rightarrow> Inl e
      | Inr None \<Rightarrow> Inr False
      | Inr (Some current_block_balances) \<Rightarrow> validate_blocks current_block_balances bs)"

definition validate_chain_balances :: "block list \<Rightarrow> error + bool" where
  "validate_chain_balances chain = validate_blocks initial_balances chain"

section \<open>The node: state, lock and effects\<close>

type_synonym addr = "string \<times> nat"

datatype payload = TxData txn | BlockData block | ChainData "block list" | TextData string
  | PeersData "addr list"

text \<open>What the node hands to the network: a call of \<^verbatim>\<open>broadcast\<close> or of \<^verbatim>\<open>send_message\<close>.\<close>

datatype event = Broadcast nat payload "addr option" | SendTo addr nat payload

definition MSG_TYPE_NEW_TRANSACTION :: nat where
  "MSG_TYPE_NEW_TRANSACTION = 1"

definition MSG_TYPE_NEW_BLOCK :: nat where
  "MSG_TYPE_NEW_BLOCK = 2"

definition MSG_TYPE_REQUEST_CHAIN :: nat where
  "MSG_TYPE_REQUEST_CHAIN = 3"

definition MSG_TYPE_SEND_CHAIN :: nat where
  "MSG_TYPE_SEND_CHAIN = 4"

definition MSG_TYPE_REQUEST_PEERS :: nat where
  "MSG_TYPE_REQUEST_PEERS = 5"

definition MSG_TYPE_SEND_PEERS :: nat where
  "MSG_TYPE_SEND_PEERS = 6"

text \<open>
  The state a \<^verbatim>\<open>Node\<close> works on: its own address, the addresses of the peers it is
  connected to (the keys of \<^verbatim>\<open>self.peers\<close>) and of those it is to connect to, its chain
  (\<^verbatim>\<open>self.blockchain.chain\<close>), its pending pool, the module's balance table, whether
  \<^verbatim>\<open>self.lock\<close> is held, the calls made to the network so far, and the number of clock
  readings it has used.
  \<^verbatim>\<open>self.lock\<close> is a \<^verbatim>\<open>threading.Lock\<close>: it is not reentrant, so acquiring it while it is held
  waits until it is released.
\<close>

record node =
  host :: string
  port :: nat
  peers :: "addr list"
  peer_addresses_to_connect :: "addr list"
  chain :: "block list"
  pending_transactions :: "txn list"
  E_CASH_BALANCES :: ledger
  lock :: bool
  events :: "event list"
  ticks :: nat

text \<open>
  A call returns a value, raises an exception, or waits for the lock for ever; each with
  the state the node is then in.
\<close>

datatype 'a outcome = Returns 'a node | Raises error node | Blocks node

fun final_state :: "'a outcome \<Rightarrow> node" where
  "final_state (Returns x s) = s"
| "final_state (Raises e s) = s"
| "final_state (Blocks s) = s"

text \<open>Whether a call came back with a value, and whether it is left waiting for the lock.\<close>

fun returns :: "'a outcome \<Rightarrow> bool" where
  "returns (Returns x s) = True"
| "returns (Raises e s) = False"
| "returns (Blocks s) = False"

fun blocked :: "'a outcome \<Rightarrow> bool" where
  "blocked (Returns x s) = False"
| "blocked (Raises e s) = False"
| "blocked (Blocks s) = True"

definition bnd :: "'a outcome \<Rightarrow> ('a \<Rightarrow> node \<Rightarrow> 'b outcome) \<Rightarrow> 'b outcome" where
  "bnd m f = (case m of Returns x s \<Rightarrow> f x s | Raises e s \<Rightarrow> Raises e s | Blocks s \<Rightarrow> Blocks s)"

text \<open>\<^verbatim>\<open>with self.lock: body\<close>. The lock is released when the body returns or raises.\<close>

definition with_lock :: "(node \<Rightarrow> 'a outcome) \<Rightarrow> node \<Rightarrow> 'a outcome" where
  "with_lock body s =
     (if lock s then Blocks s
      else case body (s\<lparr>lock := True\<rparr>) of
             Returns x t \<Rightarrow> Returns x (t\<lparr>lock := False\<rparr>)
           | Raises e t \<Rightarrow> Raises e (t\<lparr>lock := False\<rparr>)
           | Blocks t \<Rightarrow> Blocks t)"

definition broadcast :: "nat \<Rightarrow> payload \<Rightarrow> addr option \<Rightarrow> node \<Rightarrow> node" where
  "broadcast msg_type data exclude_addr s =
     s\<lparr>events := events s @ [Broadcast msg_type data exclude_addr]\<rparr>"

definition send_message :: "addr \<Rightarrow> nat \<Rightarrow> payload \<Rightarrow> node \<Rightarrow> node" where
  "send_message peer msg_type data s = s\<lparr>events := events s @ [SendTo peer msg_type data]\<rparr>"

definition request_chain_from_peers :: "node \<Rightarrow> node" where
  "request_chain_from_peers s = broadcast MSG_TYPE_REQUEST_CHAIN (TextData []) None s"

text \<open>
  \<^verbatim>\<open>str(datetime.now())\<close>: the readings of the clock are a parameter \<open>now\<close>, the \<open>n\<close>-th
  reading being \<open>now n\<close>.
\<close>

definition read_clock :: "(nat \<Rightarrow> string) \<Rightarrow> node \<Rightarrow> string \<times> node" where
  "read_clock now s = (now (ticks s), s\<lparr>ticks := Suc (ticks s)\<rparr>)"

section \<open>Balances of the node\<close>

definition update_balances_from_block :: "block \<Rightarrow> node \<Rightarrow> unit outcome" where
  "update_balances_from_block b s =
     with_lock (\<lambda>s. case update_loop (E_CASH_BALANCES s) (transactions b) of
                      (bal, None) \<Rightarrow> Returns () (s\<lparr>E_CASH_BALANCES := bal\<rparr>)
                    | (bal, Some e) \<Rightarrow> Raises e (s\<lparr>E_CASH_BALANCES := bal\<rparr>)) s"

definition recalculate_all_balances :: "node \<Rightarrow> unit outcome" where
  "recalculate_all_balances s =
     with_lock (\<lambda>s. case replay_chain initial_balances (chain s) of
                      (temp_balances, None) \<Rightarrow> Returns () (s\<lparr>E_CASH_BALANCES := temp_balances\<rparr>)
                    | (temp_balances, Some e) \<Rightarrow> Raises e s) s"

definition get_balances_from_chain :: "node \<Rightarrow> ledger outcome" where
  "get_balances_from_chain s =
     with_lock (\<lambda>s. case replay_chain initial_balances (chain s) of
                      (balances, None) \<Rightarrow> Returns balances s
                    | (balances, Some e) \<Rightarrow> Raises e s) s"

definition get_current_balance :: "pyval \<Rightarrow> node \<Rightarrow> int outcome" where
  "get_current_balance username s =
     bnd (get_balances_from_chain s)
       (\<lambda>temp_balances s. if hashable username then Returns (bal_get temp_balances username) s
                           else Raises TypeError s)"

definition get_balances_up_to_block :: "string \<Rightarrow> node \<Rightarrow> ledger outcome" where
  "get_balances_up_to_block block_hash s =
     with_lock (\<lambda>s. case replay_up_to initial_balances (chain s) block_hash of
                      (balances, None) \<Rightarrow> Returns balances s
                    | (balances, Some e) \<Rightarrow> Raises e s) s"

section \<open>Admission to the pending pool\<close>

text \<open>
  The check both admission paths start with (\<^verbatim>\<open>isinstance(data, dict)\<close> holds of every
  \<^typ>\<open>txn\<close>):
  \<^verbatim>\<open>
  if 'type' in data:
      if data['type'] == TX_TRANSFER_ECASH:
          if all(k in data for k in ('from', 'to', 'amount')) and
             isinstance(data['amount'], int) and data['amount'] > 0: valid_tx = True
      else: valid_tx = True
  \<close>
\<close>

definition valid_tx :: "txn \<Rightarrow> bool" where
  "valid_tx data =
     (if has_key data ''type''
      then if tx_get data ''type'' = PStr TX_TRANSFER_ECASH
           then has_key data ''from'' \<and> has_key data ''to'' \<and> has_key data ''amount'' \<and>
                (case tx_get data ''amount'' of PInt a \<Rightarrow> 0 < a | _ \<Rightarrow> False)
           else True
      else False)"

text \<open>
  \<^verbatim>\<open>sender_balance = self.get_current_balance(tx['from'])\<close> followed by
  \<^verbatim>\<open>if sender_balance < tx['amount']: should_add = False\<close>.
\<close>

definition should_add :: "txn \<Rightarrow> node \<Rightarrow> bool outcome" where
  "should_add tx s =
     (if tx_get tx ''type'' = PStr TX_TRANSFER_ECASH \<and> tx_get tx ''from'' \<noteq> PStr SYSTEM_ACCOUNT
      then bnd (get_current_balance (tx_get tx ''from'') s)
             (\<lambda>sender_balance s.
                case tx_get tx ''amount'' of
                  PInt a \<Rightarrow> Returns (\<not> sender_balance < a) s
                | _ \<Rightarrow> Raises TypeError s)
      else Returns True s)"

definition pooled :: "txn \<Rightarrow> txn list \<Rightarrow> bool" where
  "pooled tx pool = list_ex (\<lambda>p. canonical p = canonical tx) pool"

text \<open>
  \<^verbatim>\<open>add_transaction_local\<close>. The dictionary it was given is returned as the call leaves it:
  a missing \<^verbatim>\<open>timestamp\<close> is written into the caller's dictionary.
\<close>

definition add_transaction_local :: "(nat \<Rightarrow> string) \<Rightarrow> txn \<Rightarrow> node \<Rightarrow> txn outcome" where
  "add_transaction_local now transaction s =
     (if \<not> valid_tx transaction then Returns transaction s
      else bnd (should_add transaction s)
             (\<lambda>ok s.
                if ok
                then (let (transaction', s') =
                            (if has_key transaction ''timestamp'' then (transaction, s)
                             else (case read_clock now s of
                                     (ts, s') \<Rightarrow> (AList.update ''timestamp'' (PStr ts) transaction, s')))
                      in with_lock
                           (\<lambda>s. if \<not> pooled transaction' (pending_transactions s)
                                 then Returns transaction'
                                        (broadcast MSG_TYPE_NEW_TRANSACTION (TxData transaction') None
                                           (s\<lparr>pending_transactions :=
                                                 pending_transactions s @ [transaction']\<rparr>))
                                 else Returns transaction' s) s')
                else Returns transaction s))"

text \<open>The \<^verbatim>\<open>NewTransaction\<close> branch of \<^verbatim>\<open>_process_message\<close>.\<close>

definition process_new_transaction :: "txn \<Rightarrow> addr \<Rightarrow> node \<Rightarrow> unit outcome" where
  "process_new_transaction data source_addr s =
     (if valid_tx data
      then with_lock
             (\<lambda>s. if \<not> pooled data (pending_transactions s)
                   then bnd (should_add data s)
                          (\<lambda>ok s.
                             if ok
                             then Returns ()
                                    (broadcast MSG_TYPE_NEW_TRANSACTION (TxData data) (Some source_addr)
                                       (s\<lparr>pending_transactions := pending_transactions s @ [data]\<rparr>))
                             else Returns () s)
                   else Returns () s) s
      else Returns () s)"

section \<open>Reward synthesis\<close>

text \<open>
  Python's \<^verbatim>\<open>x in c\<close>: membership in a list, substring of a string, key of a dictionary;
  \<^verbatim>\<open>TypeError\<close> when \<open>c\<close> is not a container or \<open>x\<close> does not fit it.
\<close>

definition py_in :: "pyval \<Rightarrow> pyval \<Rightarrow> error + bool" where
  "py_in x c =
     (case c of
        PList vs \<Rightarrow> Inr (list_ex (py_eq x) vs)
      | PStr s \<Rightarrow> (case x of PStr t \<Rightarrow> Inr (sublist t s) | _ \<Rightarrow> Inl TypeError)
      | PDict kvs \<Rightarrow>
          if hashable x then Inr (case x of PStr k \<Rightarrow> has_key kvs k | _ \<Rightarrow> False)
          else Inl TypeError
      | _ \<Rightarrow> Inl TypeError)"

text \<open>
  \<^verbatim>\<open>"{}".format(v)\<close>, for strings without quotes, backslashes or control characters (which
  \<^verbatim>\<open>repr\<close> would escape).
\<close>

fun show_nat :: "nat \<Rightarrow> string" where
  "show_nat n =
     (if n < 10 then [''0123456789'' ! n]
      else show_nat (n div 10) @ [''0123456789'' ! (n mod 10)])"

definition show_int :: "int \<Rightarrow> string" where
  "show_int i = (if i < 0 then CHR ''-'' # show_nat (nat (- i)) else show_nat (nat i))"

fun join_with :: "string \<Rightarrow> string list \<Rightarrow> string" where
  "join_with sep [] = []"
| "join_with sep [x] = x"
| "join_with sep (x # y # ys) = x @ sep @ join_with sep (y # ys)"

fun py_repr :: "pyval \<Rightarrow> string" where
  "py_repr PNone = ''None''"
| "py_repr (PInt i) = show_int i"
| "py_repr (PStr s) = [CHR 39] @ s @ [CHR 39]"
| "py_repr (PList vs) = ''['' @ join_with '', '' (map py_repr vs) @ '']''"
| "py_repr (PDict kvs) =
     ''{'' @ join_with '', ''
              (map (\<lambda>kr. [CHR 39] @ fst kr @ [CHR 39] @ '': '' @ snd kr)
                 (map (map_prod id py_repr) kvs)) @ ''}''"

definition py_format :: "pyval \<Rightarrow> string" where
  "py_format v = (case v of PStr s \<Rightarrow> s | _ \<Rightarrow> py_repr v)"

text \<open>\<^verbatim>\<open>get_history_from_copy\<close>, without the \<^verbatim>\<open>{'transaction': t}\<close> wrapping.\<close>

definition get_history_from_copy :: "block \<Rightarrow> pyval \<Rightarrow> block list \<Rightarrow> txn list" where
  "get_history_from_copy block patient_id chain_copy =
     concat (map (\<lambda>b. if index b > index block then []
                       else filter (\<lambda>t. py_eq (tx_get t ''patient_id'') patient_id) (transactions b))
               chain_copy)"

text \<open>The two searches through \<^verbatim>\<open>reversed(history)\<close>; \<open>PNone\<close> when nothing matches.\<close>

fun find_ordering_doctor :: "txn \<Rightarrow> pyval \<Rightarrow> txn list \<Rightarrow> error + pyval" where
  "find_ordering_doctor tx patient_id [] = Inr PNone"
| "find_ordering_doctor tx patient_id (prev_tx # rest) =
     (if tx_get prev_tx ''type'' = PStr ''DOCTOR_CONSULTATION''
      then (case py_in (tx_get tx ''test_name'')
                   (tx_get_default prev_tx ''tests_ordered'' (PList [])) of
              Inl e \<Rightarrow> Inl e
            | Inr ordered \<Rightarrow>
                if ordered \<and> py_eq (tx_get prev_tx ''patient_id'') patient_id
                then Inr (tx_get prev_tx ''doctor'')
                else find_ordering_doctor tx patient_id rest)
      else find_ordering_doctor tx patient_id rest)"

fun find_prescribing_doctor :: "pyval \<Rightarrow> pyval \<Rightarrow> txn list \<Rightarrow> pyval" where
  "find_prescribing_doctor ref_ts patient_id [] = PNone"
| "find_prescribing_doctor ref_ts patient_id (prev_tx # rest) =
     (if tx_get prev_tx ''type'' = PStr ''PRESCRIPTION'' \<and> py_eq (tx_get prev_tx ''timestamp'') ref_ts
         \<and> py_eq (tx_get prev_tx ''patient_id'') patient_id
      then tx_get prev_tx ''prescribed_by''
      else find_prescribing_doctor ref_ts patient_id rest)"

definition reward_tx :: "pyval \<Rightarrow> int \<Rightarrow> string \<Rightarrow> string \<Rightarrow> txn" where
  "reward_tx doctor amount reason ts =
     [(''type'', PStr TX_TRANSFER_ECASH), (''from'', PStr SYSTEM_ACCOUNT), (''to'', doctor),
      (''amount'', PInt amount), (''reason'', PStr reason), (''timestamp'', PStr ts)]"

text \<open>
  The loop of \<^verbatim>\<open>_generate_system_transfers_for_block\<close> over the block's transactions. It
  starts with
  \<^verbatim>\<open>
  if not isinstance(tx, dict): continue; patient_id = tx.get('patient_id');
  if not patient_id: continue
  \<close>
  The assignment to \<^verbatim>\<open>patient_id\<close> is part of the body of the first \<^verbatim>\<open>if\<close>, after its
  \<^verbatim>\<open>continue\<close>: no path runs it. The local variable is carried as an option, \<open>None\<close> while
  it is unbound; reading it then raises \<^verbatim>\<open>UnboundLocalError\<close>.
\<close>

fun generate_loop ::
  "(nat \<Rightarrow> string) \<Rightarrow> block \<Rightarrow> block list \<Rightarrow> pyval option \<Rightarrow> txn list \<Rightarrow> txn list \<Rightarrow> node
     \<Rightarrow> txn list outcome" where
  "generate_loop now block chain_copy patient_id [] generated_tx s = Returns generated_tx s"
| "generate_loop now block chain_copy patient_id (tx # txs) generated_tx s =
     (case patient_id of
        None \<Rightarrow> Raises UnboundLocalError s
      | Some pid \<Rightarrow>
          if \<not> truthy pid then generate_loop now block chain_copy patient_id txs generated_tx s
          else if tx_get tx ''type'' = PStr ''LAB_TEST_RESULT''
          then (case find_ordering_doctor tx pid
                       (rev (get_history_from_copy block pid chain_copy)) of
                  Inl e \<Rightarrow> Raises e s
                | Inr ordering_doctor \<Rightarrow>
                    if truthy ordering_doctor
                    then (case read_clock now s of
                            (ts, s') \<Rightarrow>
                              generate_loop now block chain_copy patient_id txs
                                (generated_tx @
                                   [reward_tx ordering_doctor 500
                                      (''Reward for Lab Test Order ('' @
                                         py_format (tx_get tx ''test_name'') @ '')'') ts]) s')
                    else generate_loop now block chain_copy patient_id txs generated_tx s)
          else if tx_get tx ''type'' = PStr ''PRESCRIPTION_FILLED''
          then (let prescribing_doctor =
                      find_prescribing_doctor (tx_get tx ''references_prescription_timestamp'') pid
                        (rev (get_history_from_copy block pid chain_copy))
                in if truthy prescribing_doctor
                   then (case read_clock now s of
                           (ts, s') \<Rightarrow>
                             generate_loop now block chain_copy patient_id txs
                               (generated_tx @
                                  [reward_tx prescribing_doctor 700 ''Reward for Prescription Fill'' ts])
                               s')
                   else generate_loop now block chain_copy patient_id txs generated_tx s)
          else generate_loop now block chain_copy patient_id txs generated_tx s)"

definition generate_system_transfers_for_block ::
  "(nat \<Rightarrow> string) \<Rightarrow> block \<Rightarrow> node \<Rightarrow> txn list outcome" where
  "generate_system_transfers_for_block now block s =
     bnd (with_lock (\<lambda>s. Returns (chain s) s) s)
       (\<lambda>chain_history_copy s.
          generate_loop now block chain_history_copy None (transactions block) [] s)"

text \<open>\<^verbatim>\<open>for sys_tx in generated_tx: self.add_transaction_local(sys_tx)\<close>.\<close>

fun submit_all :: "(nat \<Rightarrow> string) \<Rightarrow> txn list \<Rightarrow> node \<Rightarrow> unit outcome" where
  "submit_all now [] s = Returns () s"
| "submit_all now (sys_tx # rest) s =
     bnd (add_transaction_local now sys_tx s) (\<lambda>r s. submit_all now rest s)"

section \<open>Block production, block acceptance, chain replacement\<close>

text \<open>
  \<^verbatim>\<open>mined_tx_ids = set(json.dumps(tx, sort_keys=True) for tx in txs)\<close> and the filter
  of the pending pool against it.
\<close>

definition purge_pending :: "txn list \<Rightarrow> txn list \<Rightarrow> txn list" where
  "purge_pending mined pool = filter (\<lambda>tx. canonical tx \<notin> set (map canonical mined)) pool"

text \<open>
  The filter of \<^verbatim>\<open>mine_block_local\<close> over the candidates: the transactions kept for the
  block. A skipped transfer is reported with \<^verbatim>\<open>tx['from']\<close>, a \<^verbatim>\<open>KeyError\<close> when that key
  is missing.
\<close>

fun select_txs :: "ledger \<Rightarrow> txn list \<Rightarrow> error + txn list" where
  "select_txs temp_balances [] = Inr []"
| "select_txs temp_balances (tx # txs) =
     (if is_transfer tx
      then (case spend temp_balances tx of
              Inl e \<Rightarrow> Inl e
            | Inr None \<Rightarrow>
                if has_key tx ''from'' then select_txs temp_balances txs else Inl KeyError
            | Inr (Some bal') \<Rightarrow>
                (case select_txs bal' txs of Inl e \<Rightarrow> Inl e | Inr kept \<Rightarrow> Inr (tx # kept)))
      else (case select_txs temp_balances txs of Inl e \<Rightarrow> Inl e | Inr kept \<Rightarrow> Inr (tx # kept)))"

text \<open>
  The part of \<^verbatim>\<open>mine_block_local\<close> that runs under the lock. It yields \<^verbatim>\<open>new_block\<close>,
  \<^verbatim>\<open>block_added\<close> and \<^verbatim>\<open>generated_tx\<close>; the early \<^verbatim>\<open>return False\<close> leaves them as initialised.
\<close>

definition mine_locked ::
  "hashfn \<Rightarrow> (nat \<Rightarrow> string) \<Rightarrow> node \<Rightarrow> (block option \<times> bool \<times> txn list) outcome" where
  "mine_locked H now s =
     (if pending_transactions s = [] then Returns (None, False, []) s
      else case get_latest_block (chain s) of
             None \<Rightarrow> Returns (None, False, []) s
           | Some latest_block \<Rightarrow>
               bnd (get_balances_up_to_block (hash latest_block) s)
                 (\<lambda>temp_balances s.
                    case select_txs temp_balances (pending_transactions s) of
                      Inl e \<Rightarrow> Raises e s
                    | Inr valid_tx_for_block \<Rightarrow>
                        if valid_tx_for_block = [] then Returns (None, False, []) s
                        else (case read_clock now s of
                                (ts, s1) \<Rightarrow>
                                  (let new_block = Block H (index latest_block + 1) ts
                                                     valid_tx_for_block (hash latest_block)
                                   in case add_block (chain s1) new_block of
                                        (chain', True) \<Rightarrow>
                                          bnd (update_balances_from_block new_block
                                                 (s1\<lparr>chain := chain'\<rparr>))
                                            (\<lambda>u s2.
                                               bnd (generate_system_transfers_for_block now new_block
                                                      (s2\<lparr>pending_transactions :=
                                                            purge_pending valid_tx_for_block
                                                              (pending_transactions s2)\<rparr>))
                                                 (\<lambda>generated_tx s3.
                                                    Returns (Some new_block, True, generated_tx) s3))
                                      | (chain', False) \<Rightarrow>
                                          Returns (Some new_block, False, []) (s1\<lparr>chain := chain'\<rparr>)))))"

definition mine_block_local :: "hashfn \<Rightarrow> (nat \<Rightarrow> string) \<Rightarrow> node \<Rightarrow> bool outcome" where
  "mine_block_local H now s =
     bnd (with_lock (mine_locked H now) s)
       (\<lambda>r s. case r of
                 (Some new_block, True, generated_tx) \<Rightarrow>
                   bnd (submit_all now generated_tx
                          (broadcast MSG_TYPE_NEW_BLOCK (BlockData new_block) None s))
                     (\<lambda>u s. Returns True s)
               | _ \<Rightarrow> Returns False s)"

text \<open>
  The \<^verbatim>\<open>NewBlock\<close> branch of \<^verbatim>\<open>_process_message\<close>: first the checks that set \<^verbatim>\<open>valid\<close>
  (\<open>None\<close> is the early \<^verbatim>\<open>return\<close>), then the part under the lock.
\<close>

definition block_checks :: "hashfn \<Rightarrow> block \<Rightarrow> node \<Rightarrow> bool option outcome" where
  "block_checks H data s =
     (case get_latest_block (chain s) of
        None \<Rightarrow>
          if index data \<noteq> 0 then Returns None s
          else if hash data \<noteq> calculate_hash H data then Returns (Some False) s
          else bnd (get_balances_up_to_block (previous_hash data) s)
                 (\<lambda>temp_balances s.
                    case validate_txs temp_balances (transactions data) of
                      Inl e \<Rightarrow> Raises e s
                    | Inr None \<Rightarrow> Returns (Some False) s
                    | Inr (Some bal') \<Rightarrow> Returns (Some True) s)
      | Some latest_block \<Rightarrow>
          if index data \<noteq> index latest_block + 1 then Returns (Some False) s
          else if previous_hash data \<noteq> hash latest_block
          then Returns (Some False) (request_chain_from_peers s)
          else if hash data \<noteq> calculate_hash H data then Returns (Some False) s
          else bnd (get_balances_up_to_block (previous_hash data) s)
                 (\<lambda>temp_balances s.
                    case validate_txs temp_balances (transactions data) of
                      Inl e \<Rightarrow> Raises e s
                    | Inr None \<Rightarrow> Returns (Some False) s
                    | Inr (Some bal') \<Rightarrow> Returns (Some True) s))"

definition accept_locked ::
  "(nat \<Rightarrow> string) \<Rightarrow> block \<Rightarrow> node \<Rightarrow> (bool \<times> txn list) outcome" where
  "accept_locked now data s =
     (if (case get_latest_block (chain s) of
            None \<Rightarrow> index data = 0
          | Some current_latest \<Rightarrow>
              previous_hash data = hash current_latest \<and> index data = index current_latest + 1)
      then bnd (update_balances_from_block data
                  (s\<lparr>chain := fst (add_block (chain s) data),
                     pending_transactions :=
                       purge_pending (transactions data) (pending_transactions s)\<rparr>))
             (\<lambda>u s1.
                bnd (generate_system_transfers_for_block now data s1)
                  (\<lambda>generated_tx s2. Returns (True, generated_tx) s2))
      else Returns (False, []) s)"

definition process_new_block ::
  "hashfn \<Rightarrow> (nat \<Rightarrow> string) \<Rightarrow> block \<Rightarrow> addr \<Rightarrow> node \<Rightarrow> unit outcome" where
  "process_new_block H now data source_addr s =
     bnd (block_checks H data s)
       (\<lambda>valid s.
          if valid = Some True
          then bnd (with_lock (accept_locked now data) s)
                 (\<lambda>r s. case r of
                           (True, generated_tx) \<Rightarrow>
                             submit_all now generated_tx
                               (broadcast MSG_TYPE_NEW_BLOCK (BlockData data) (Some source_addr) s)
                         | (False, generated_tx) \<Rightarrow> Returns () s)
          else Returns () s)"

text \<open>\<^verbatim>\<open>_reconcile_pending_transactions\<close>.\<close>

definition reconcile_pending_transactions :: "node \<Rightarrow> node" where
  "reconcile_pending_transactions s =
     s\<lparr>pending_transactions :=
          purge_pending (concat (map transactions (chain s))) (pending_transactions s)\<rparr>"

text \<open>
  \<^verbatim>\<open>resolve_conflicts\<close>. The temporary \<^verbatim>\<open>Blockchain\<close> it builds only carries the received
  chain into \<^verbatim>\<open>is_chain_valid()\<close>, called without argument.
\<close>

definition resolve_conflicts :: "hashfn \<Rightarrow> block list \<Rightarrow> node \<Rightarrow> bool outcome" where
  "resolve_conflicts H received_chain s =
     with_lock
       (\<lambda>s. if length received_chain > length (chain s)
             then if is_chain_valid H received_chain None
                  then (case validate_chain_balances received_chain of
                          Inl e \<Rightarrow> Raises e s
                        | Inr False \<Rightarrow> Returns False s
                        | Inr True \<Rightarrow>
                            bnd (recalculate_all_balances
                                   (reconcile_pending_transactions (s\<lparr>chain := received_chain\<rparr>)))
                              (\<lambda>u s. Returns True s))
                  else Returns False s
             else Returns False s) s"

text \<open>
  The loop of the \<^verbatim>\<open>SendPeers\<close> branch: an address that is not the node's own and is
  known neither as a peer nor as one to connect to is added to the addresses to connect to.
\<close>

fun add_new_peers :: "addr list \<Rightarrow> node \<Rightarrow> node" where
  "add_new_peers [] s = s"
| "add_new_peers (a # rest) s =
     add_new_peers rest
       (if \<not> (fst a = host s \<and> snd a = port s) \<and> a \<notin> set (peer_addresses_to_connect s)
           \<and> a \<notin> set (peers s)
        then s\<lparr>peer_addresses_to_connect := peer_addresses_to_connect s @ [a]\<rparr>
        else s)"

text \<open>
  \<^verbatim>\<open>_process_message\<close>. A list of addresses that arrives as a \<^verbatim>\<open>SendChain\<close> message goes
  through \<^verbatim>\<open>resolve_conflicts\<close> as any list does: the lock is taken, and the list is
  refused, by its length or by \<^verbatim>\<open>is_chain_valid\<close> (the \<^verbatim>\<open>index\<close> of a tuple is not 0).
\<close>

definition process_message ::
  "hashfn \<Rightarrow> (nat \<Rightarrow> string) \<Rightarrow> nat \<Rightarrow> payload \<Rightarrow> addr \<Rightarrow> node \<Rightarrow> unit outcome" where
  "process_message H now msg_type data source_addr s =
     (if msg_type = MSG_TYPE_NEW_TRANSACTION
      then (case data of TxData tx \<Rightarrow> process_new_transaction tx source_addr s | _ \<Rightarrow> Returns () s)
      else if msg_type = MSG_TYPE_NEW_BLOCK
      then (case data of BlockData b \<Rightarrow> process_new_block H now b source_addr s | _ \<Rightarrow> Returns () s)
      else if msg_type = MSG_TYPE_REQUEST_CHAIN
      then with_lock
             (\<lambda>s. Returns () (send_message source_addr MSG_TYPE_SEND_CHAIN (ChainData (chain s)) s)) s
      else if msg_type = MSG_TYPE_SEND_CHAIN
      then (case data of
              ChainData received_chain \<Rightarrow>
                bnd (resolve_conflicts H received_chain s) (\<lambda>replaced s. Returns () s)
            | PeersData addrs \<Rightarrow> with_lock (\<lambda>s. Returns () s) s
            | _ \<Rightarrow> Returns () s)
      else if msg_type = MSG_TYPE_REQUEST_PEERS
      then with_lock
             (\<lambda>s. Returns () (send_message source_addr MSG_TYPE_SEND_PEERS (PeersData (peers s)) s)) s
      else if msg_type = MSG_TYPE_SEND_PEERS
      then (case data of
              PeersData addrs \<Rightarrow> Returns () (add_new_peers addrs s)
            | _ \<Rightarrow> Returns () s)
      else Returns () s)"

section \<open>Notions used in the statements\<close>

text \<open>The sum of the balances of all principals of a ledger.\<close>

definition ledger_total :: "ledger \<Rightarrow> int" where
  "ledger_total bal = sum_list (map snd bal)"

text \<open>No principal other than the system account has a negative entry.\<close>

definition nonneg_ledger :: "ledger \<Rightarrow> bool" where
  "nonneg_ledger bal = list_all (\<lambda>(k, v). k = PStr SYSTEM_ACCOUNT \<or> 0 \<le> v) bal"

text \<open>A transfer whose amount, when it is an integer, is not negative.\<close>

definition nonneg_amount :: "txn \<Rightarrow> bool" where
  "nonneg_amount tx =
     (if is_transfer tx
      then (case tx_get_default tx ''amount'' (PInt 0) of PInt a \<Rightarrow> 0 \<le> a | _ \<Rightarrow> True)
      else True)"

text \<open>
  A transfer the replay can run without a \<^verbatim>\<open>TypeError\<close>: sender and recipient are hashable
  and the amount is an integer.
\<close>

definition well_typed :: "txn \<Rightarrow> bool" where
  "well_typed tx =
     (if is_transfer tx
      then hashable (tx_get tx ''from'') \<and> hashable (tx_get tx ''to'') \<and>
           (case tx_get_default tx ''amount'' (PInt 0) of PInt a \<Rightarrow> True | _ \<Rightarrow> False)
      else True)"

text \<open>
  A block whose stored hash is the recomputed one and which, when its index is 0, names
  \<^verbatim>\<open>"0"\<close> as its predecessor.
\<close>

definition consistent_block :: "hashfn \<Rightarrow> block \<Rightarrow> bool" where
  "consistent_block H b =
     (hash b = calculate_hash H b \<and> (if index b = 0 then previous_hash b = ''0'' else True))"

text \<open>A chain built by offering the blocks \<open>bs\<close> to \<^verbatim>\<open>add_block\<close>, one after the other.\<close>

definition append_all :: "block list \<Rightarrow> block list \<Rightarrow> block list" where
  "append_all c bs = foldl (\<lambda>c b. fst (add_block c b)) c bs"

section \<open>Notions used in the statements about the node\<close>

text \<open>The index the next block must carry, and whether a block's link misses the tip.\<close>

definition expected_index :: "node \<Rightarrow> int" where
  "expected_index s = (case get_latest_block (chain s) of None \<Rightarrow> 0 | Some tip \<Rightarrow> index tip + 1)"

definition tip_hash_differs :: "node \<Rightarrow> block \<Rightarrow> bool" where
  "tip_hash_differs s b =
     (case get_latest_block (chain s) of None \<Rightarrow> False | Some tip \<Rightarrow> previous_hash b \<noteq> hash tip)"

text \<open>
  The replay of a block's transfers against the balances up to its parent: \<open>Inr None\<close>
  when a transfer is unaffordable at the point it is applied.
\<close>

definition parent_snapshot_replay :: "node \<Rightarrow> block \<Rightarrow> error + ledger option" where
  "parent_snapshot_replay s b =
     (case replay_up_to initial_balances (chain s) (previous_hash b) of
        (bal, None) \<Rightarrow> validate_txs bal (transactions b)
      | (bal, Some e) \<Rightarrow> Inl e)"

definition acceptance_check_fails :: "hashfn \<Rightarrow> node \<Rightarrow> block \<Rightarrow> bool" where
  "acceptance_check_fails H s b =
     (index b \<noteq> expected_index s \<or> tip_hash_differs s b \<or> hash b \<noteq> calculate_hash H b \<or>
      parent_snapshot_replay s b = Inr None)"

definition passes_checks :: "hashfn \<Rightarrow> node \<Rightarrow> block \<Rightarrow> bool" where
  "passes_checks H s b =
     (index b = expected_index s \<and> \<not> tip_hash_differs s b \<and> hash b = calculate_hash H b \<and>
      (case parent_snapshot_replay s b of Inr (Some bal) \<Rightarrow> True | _ \<Rightarrow> False))"

text \<open>
  The kinds of transaction that the specification's data model lists, under the names the
  code gives them.
\<close>

definition recognized_type :: "txn \<Rightarrow> bool" where
  "recognized_type tx =
     (tx_get tx ''type'' \<in> set (map PStr [''genesis'', ''PATIENT_REGISTRATION'',
        ''DOCTOR_CONSULTATION'', ''LAB_TEST_RESULT'', ''PRESCRIPTION'', ''PRESCRIPTION_FILLED'',
        ''TRANSFER_ECASH'']))"

text \<open>
  The balance of a principal that the node's chain confirms: the replay of the whole chain,
  when it runs to the end and the principal can be a key.
\<close>

definition chain_confirmed_balance :: "node \<Rightarrow> pyval \<Rightarrow> int option" where
  "chain_confirmed_balance s k =
     (case replay_chain initial_balances (chain s) of
        (bal, None) \<Rightarrow> if hashable k then Some (bal_get bal k) else None
      | (bal, Some e) \<Rightarrow> None)"

text \<open>
  The admission rule: a \<^verbatim>\<open>type\<close> key; for a transfer also \<^verbatim>\<open>from\<close>, \<^verbatim>\<open>to\<close> and an integer
  \<^verbatim>\<open>amount\<close> above 0 which, unless the sender is the system account, the sender's
  chain-confirmed balance covers.
\<close>

definition admissible :: "node \<Rightarrow> txn \<Rightarrow> bool" where
  "admissible s tx =
     (has_key tx ''type'' \<and>
      (if tx_get tx ''type'' = PStr TX_TRANSFER_ECASH
       then has_key tx ''from'' \<and> has_key tx ''to'' \<and> has_key tx ''amount'' \<and>
            (case tx_get tx ''amount'' of
               PInt a \<Rightarrow>
                 0 < a \<and>
                 (if tx_get tx ''from'' = PStr SYSTEM_ACCOUNT then True
                  else case chain_confirmed_balance s (tx_get tx ''from'') of
                         Some v \<Rightarrow> a \<le> v
                       | None \<Rightarrow> False)
             | _ \<Rightarrow> False)
       else True))"

text \<open>The transaction as local admission pools it: with the time written in when it has none.\<close>

definition stamped :: "(nat \<Rightarrow> string) \<Rightarrow> node \<Rightarrow> txn \<Rightarrow> txn" where
  "stamped now s tx =
     (if has_key tx ''timestamp'' then tx
      else AList.update ''timestamp'' (PStr (now (ticks s))) tx)"

section \<open>Example inputs\<close>

definition demo_digest :: hashfn where
  "demo_digest c = (case c of (i, ts, txs, ph, n) \<Rightarrow> ts @ ''/'' @ ph)"

definition demo_now :: "nat \<Rightarrow> string" where
  "demo_now n = ''now'' @ replicate n (CHR ''+'')"

definition ex_genesis :: block where
  "ex_genesis = Block demo_digest 0 ''t0''
     [[(''type'', PStr ''genesis''), (''details'', PStr ''The beginning'')]] ''0''"

definition ex_reward :: txn where
  "ex_reward = [(''type'', PStr ''TRANSFER_ECASH''), (''from'', PStr ''SYSTEM_BANK_001''),
     (''to'', PStr ''dr_alice''), (''amount'', PInt 500), (''timestamp'', PStr ''t1'')]"

definition ex_payment :: txn where
  "ex_payment = [(''type'', PStr ''TRANSFER_ECASH''), (''from'', PStr ''dr_alice''),
     (''to'', PStr ''lab_tech_bob''), (''amount'', PInt 100), (''timestamp'', PStr ''t2'')]"

definition ex_block1 :: block where
  "ex_block1 = Block demo_digest 1 ''t3'' [ex_reward, ex_payment] (hash ex_genesis)"

definition ex_registration :: txn where
  "ex_registration = [(''type'', PStr ''PATIENT_REGISTRATION''), (''patient_id'', PStr ''p1''),
     (''patient_name'', PStr ''Pat''), (''registered_by'', PStr ''dr_alice''),
     (''timestamp'', PStr ''t4'')]"

definition ex_block2 :: block where
  "ex_block2 = Block demo_digest 2 ''t5'' [ex_registration] (hash ex_block1)"

text \<open>A node as \<^verbatim>\<open>Node.__init__\<close> leaves it, and one whose chain has a second block.\<close>

definition ex_node :: node where
  "ex_node = \<lparr>host = ''127.0.0.1'', port = 5000, peers = [], peer_addresses_to_connect = [],
     chain = [ex_genesis], pending_transactions = [],
     E_CASH_BALANCES = initial_balances, lock = False, events = [], ticks = 0\<rparr>"

definition ex_node1 :: node where
  "ex_node1 = \<lparr>host = ''127.0.0.1'', port = 5000, peers = [], peer_addresses_to_connect = [],
     chain = [ex_genesis, ex_block1], pending_transactions = [],
     E_CASH_BALANCES = fst (replay_chain initial_balances [ex_genesis, ex_block1]),
     lock = False, events = [], ticks = 0\<rparr>"

text \<open>A transfer of a negative amount, and a block that carries it.\<close>

definition ex_negative :: txn where
  "ex_negative = [(''type'', PStr ''TRANSFER_ECASH''), (''from'', PStr ''dr_alice''),
     (''to'', PStr ''lab_tech_bob''), (''amount'', PInt (- 5)), (''timestamp'', PStr ''t6'')]"

definition ex_negative_block :: block where
  "ex_negative_block = Block demo_digest 1 ''t7'' [ex_negative] (hash ex_genesis)"

text \<open>A first block whose \<^verbatim>\<open>previous_hash\<close> is not \<^verbatim>\<open>"0"\<close>.\<close>

definition ex_bad_genesis :: block where
  "ex_bad_genesis = Block demo_digest 0 ''t0'' [] ''x''"

text \<open>A transaction of a kind the data model does not list, and one without a timestamp.\<close>

definition ex_unknown :: txn where
  "ex_unknown = [(''type'', PStr ''FOO''), (''timestamp'', PStr ''t8'')]"

definition ex_unstamped :: txn where
  "ex_unstamped = [(''type'', PStr ''PATIENT_REGISTRATION''), (''patient_id'', PStr ''p1'')]"

text \<open>
  A consultation that orders a blood test for patient \<^verbatim>\<open>p1\<close>, mined into a block, and a block
  with the result of that test.
\<close>

definition ex_consultation :: txn where
  "ex_consultation = [(''type'', PStr ''DOCTOR_CONSULTATION''), (''patient_id'', PStr ''p1''),
     (''doctor'', PStr ''dr_alice''), (''notes'', PStr ''n''),
     (''tests_ordered'', PList [PStr ''Blood Test'']), (''timestamp'', PStr ''t9'')]"

definition ex_lab_result :: txn where
  "ex_lab_result = [(''type'', PStr ''LAB_TEST_RESULT''), (''patient_id'', PStr ''p1''),
     (''test_name'', PStr ''Blood Test''), (''performed_by'', PStr ''lab_tech_bob''),
     (''results'', PDict [(''hb'', PInt 13)]), (''timestamp'', PStr ''t10'')]"

definition ex_consultation_block :: block where
  "ex_consultation_block = Block demo_digest 1 ''t11'' [ex_consultation] (hash ex_genesis)"

definition ex_lab_block :: block where
  "ex_lab_block = Block demo_digest 2 ''t12'' [ex_lab_result] (hash ex_consultation_block)"

definition ex_node2 :: node where
  "ex_node2 = \<lparr>host = ''127.0.0.1'', port = 5000, peers = [], peer_addresses_to_connect = [],
     chain = [ex_genesis, ex_consultation_block], pending_transactions = [ex_lab_result],
     E_CASH_BALANCES = initial_balances, lock = False, events = [], ticks = 0\<rparr>"

text \<open>A block for the second position that claims another parent, and one at a later index.\<close>

definition ex_forked_block :: block where
  "ex_forked_block = Block demo_digest 1 ''t13'' [ex_registration] ''elsewhere''"

definition ex_peer :: addr where
  "ex_peer = (''127.0.0.1'', 5001)"

section \<open>Facts about the ledger\<close>

lemmas tx_defs = tx_get_def tx_get_default_def has_key_def is_transfer_def
  TX_TRANSFER_ECASH_def SYSTEM_ACCOUNT_def

lemmas ledger_defs = initial_balances_def USERS_def INITIAL_SYSTEM_BALANCE_def bal_get_def
  ensure_account_def

lemmas example_defs = ex_genesis_def ex_block1_def ex_block2_def ex_reward_def ex_payment_def
  ex_registration_def ex_negative_def ex_negative_block_def ex_bad_genesis_def Block_def
  calculate_hash_def demo_digest_def canonical_def ex_unknown_def ex_unstamped_def
  ex_consultation_def ex_lab_result_def ex_consultation_block_def ex_lab_block_def
  ex_forked_block_def ex_peer_def

lemma bal_get_update: "bal_get (AList.update k v al) k' = (if k' = k then v else bal_get al k')"
  by (simp add: bal_get_def update_conv')

lemma bal_get_ensure_account: "bal_get (ensure_account k al) k' = bal_get al k'"
  by (cases "map_of al k") (auto simp add: ensure_account_def bal_get_def update_conv')

lemma total_update: "ledger_total (AList.update k v bal) = ledger_total bal - bal_get bal k + v"
  by (induction bal) (auto simp add: ledger_total_def bal_get_def)

lemma total_ensure_account: "ledger_total (ensure_account k bal) = ledger_total bal"
  by (cases "map_of bal k") (simp_all add: ensure_account_def total_update bal_get_def)

lemma apply_transfer_total: "ledger_total (fst (apply_transfer bal tx)) = ledger_total bal"
  by (simp add: apply_transfer_def transfer_steps_def Let_def total_update total_ensure_account
        split: pyval.splits)

lemma update_loop_total: "ledger_total (fst (update_loop bal txs)) = ledger_total bal"
proof (induction txs arbitrary: bal)
  case Nil
  then show ?case by simp
next
  case (Cons tx txs)
  show ?case
  proof (cases "is_transfer tx")
    case False
    then show ?thesis using Cons.IH by simp
  next
    case True
    obtain bal' err where a: "apply_transfer bal tx = (bal', err)"
      by (cases "apply_transfer bal tx")
    then have t: "ledger_total bal' = ledger_total bal" using apply_transfer_total[of bal tx] by simp
    show ?thesis using True a t Cons.IH[of bal'] by (cases err) simp_all
  qed
qed

lemma update_loop_append:
  "update_loop bal (xs @ ys) =
     (case update_loop bal xs of
        (bal', None) \<Rightarrow> update_loop bal' ys
      | (bal', Some e) \<Rightarrow> (bal', Some e))"
  by (induction xs arbitrary: bal) (auto split: prod.splits option.splits)

lemma replay_chain_concat:
  "replay_chain bal c = update_loop bal (concat (map transactions c))"
  by (induction c arbitrary: bal)
     (auto simp add: update_loop_append split: prod.splits option.splits)

lemma replay_chain_total: "ledger_total (fst (replay_chain bal c)) = ledger_total bal"
  by (simp add: replay_chain_concat update_loop_total)

lemma total_initial_balances: "ledger_total initial_balances = INITIAL_SYSTEM_BALANCE"
  by (simp add: ledger_total_def initial_balances_def USERS_def)

lemma well_typed_apply_transfer:
  "is_transfer tx \<Longrightarrow> well_typed tx \<Longrightarrow> snd (apply_transfer bal tx) = None"
  by (auto simp add: well_typed_def apply_transfer_def transfer_steps_def Let_def
        split: pyval.splits)

lemma well_typed_update_loop: "list_all well_typed txs \<Longrightarrow> snd (update_loop bal txs) = None"
proof (induction txs arbitrary: bal)
  case Nil
  then show ?case by simp
next
  case (Cons tx txs)
  show ?case
  proof (cases "is_transfer tx")
    case False
    then show ?thesis using Cons by simp
  next
    case True
    obtain bal' err where a: "apply_transfer bal tx = (bal', err)"
      by (cases "apply_transfer bal tx")
    with True Cons.prems well_typed_apply_transfer[of tx bal] have "err = None" by simp
    with True a Cons show ?thesis by simp
  qed
qed

section \<open>Total supply\<close>

text \<open>
  Claim C10. The ledger that the full recomputation builds for a chain sums to the system
  account's initial allocation of 1,000,000, for every chain (also when the replay stops
  at an ill-typed transfer); on a node whose lock is free and whose chain holds only
  well-typed transfers, \<^verbatim>\<open>_recalculate_all_balances\<close> returns and installs a table with
  that sum. The per-block update \<^verbatim>\<open>_update_balances_from_block\<close> leaves the sum of the
  table as it was, whatever its outcome, and returns when the lock is free and the block's
  transfers are well-typed.
\<close>

theorem total_supply_conserved:
  assumes "\<not> lock s" and "list_all well_typed (concat (map transactions (chain s)))"
    and "list_all well_typed (transactions b)"
  shows "(\<exists>s'. recalculate_all_balances s = Returns () s' \<and>
                ledger_total (E_CASH_BALANCES s') = INITIAL_SYSTEM_BALANCE) \<and>
         (\<exists>s'. update_balances_from_block b s = Returns () s' \<and>
                ledger_total (E_CASH_BALANCES s') = ledger_total (E_CASH_BALANCES s)) \<and>
         ledger_total (fst (replay_chain initial_balances c)) = INITIAL_SYSTEM_BALANCE \<and>
         ledger_total (E_CASH_BALANCES (final_state (update_balances_from_block b t))) =
           ledger_total (E_CASH_BALANCES t)"
proof -
  obtain bal where r: "replay_chain initial_balances (chain s) = (bal, None)"
    using well_typed_update_loop[OF assms(2), of initial_balances]
    by (cases "replay_chain initial_balances (chain s)") (simp add: replay_chain_concat)
  have "ledger_total bal = INITIAL_SYSTEM_BALANCE"
    using replay_chain_total[of initial_balances "chain s"] r
    by (simp add: total_initial_balances)
  then have 1: "\<exists>s'. recalculate_all_balances s = Returns () s' \<and>
                ledger_total (E_CASH_BALANCES s') = INITIAL_SYSTEM_BALANCE"
    using assms(1) r by (simp add: recalculate_all_balances_def with_lock_def)
  obtain bal2 where u: "update_loop (E_CASH_BALANCES s) (transactions b) = (bal2, None)"
    using well_typed_update_loop[OF assms(3), of "E_CASH_BALANCES s"]
    by (cases "update_loop (E_CASH_BALANCES s) (transactions b)") simp
  have "ledger_total bal2 = ledger_total (E_CASH_BALANCES s)"
    using update_loop_total[of "E_CASH_BALANCES s" "transactions b"] u by simp
  then have 2: "\<exists>s'. update_balances_from_block b s = Returns () s' \<and>
                ledger_total (E_CASH_BALANCES s') = ledger_total (E_CASH_BALANCES s)"
    using assms(1) u by (simp add: update_balances_from_block_def with_lock_def)
  have 3: "ledger_total (fst (replay_chain initial_balances c)) = INITIAL_SYSTEM_BALANCE"
    by (simp add: replay_chain_total total_initial_balances)
  have 4: "ledger_total (E_CASH_BALANCES (final_state (update_balances_from_block b t))) =
           ledger_total (E_CASH_BALANCES t)"
  proof (cases "lock t")
    case True
    then show ?thesis by (simp add: update_balances_from_block_def with_lock_def)
  next
    case False
    obtain bal3 err where v: "update_loop (E_CASH_BALANCES t) (transactions b) = (bal3, err)"
      by (cases "update_loop (E_CASH_BALANCES t) (transactions b)")
    then have "ledger_total bal3 = ledger_total (E_CASH_BALANCES t)"
      using update_loop_total[of "E_CASH_BALANCES t" "transactions b"] by simp
    with False v show ?thesis
      by (cases err) (simp_all add: update_balances_from_block_def with_lock_def)
  qed
  from 1 2 3 4 show ?thesis by blast
qed

theorem total_supply_conserved_witness:
  "\<not> lock ex_node1 \<and> list_all well_typed (concat (map transactions (chain ex_node1))) \<and>
   list_all well_typed (transactions ex_block1) \<and>
   (\<exists>s'. recalculate_all_balances ex_node1 = Returns () s' \<and>
          ledger_total (E_CASH_BALANCES s') = INITIAL_SYSTEM_BALANCE) \<and>
   (\<exists>s'. update_balances_from_block ex_block1 ex_node1 = Returns () s' \<and>
          ledger_total (E_CASH_BALANCES s') = ledger_total (E_CASH_BALANCES ex_node1)) \<and>
   ledger_total (fst (replay_chain initial_balances [ex_genesis, ex_negative_block])) =
     INITIAL_SYSTEM_BALANCE \<and>
   ledger_total (E_CASH_BALANCES (final_state (update_balances_from_block ex_block1 ex_node))) =
     ledger_total (E_CASH_BALANCES ex_node)"
proof -
  have h1: "\<not> lock ex_node1" by (simp add: ex_node1_def)
  have h2: "list_all well_typed (concat (map transactions (chain ex_node1)))"
    by (simp add: ex_node1_def example_defs well_typed_def tx_defs)
  have h3: "list_all well_typed (transactions ex_block1)"
    by (simp add: example_defs well_typed_def tx_defs)
  from total_supply_conserved[OF h1 h2 h3, of "[ex_genesis, ex_negative_block]" ex_node]
    h1 h2 h3 show ?thesis by simp
qed

section \<open>Affordability replay and negative balances\<close>

lemma update_ensure_same: "AList.update k x (ensure_account k al) = AList.update k x al"
  by (cases "map_of al k") (simp_all add: ensure_account_def)

lemma update_update_absent:
  "k \<in> fst ` set al \<Longrightarrow> r \<notin> fst ` set al \<Longrightarrow>
     AList.update k x (AList.update r y al) = AList.update r y (AList.update k x al)"
  by (induction al) auto

lemma update_ensure_other:
  assumes "k \<in> fst ` set al"
  shows "AList.update k x (ensure_account r al) = ensure_account r (AList.update k x al)"
proof (cases "map_of al r")
  case None
  then have r: "r \<notin> fst ` set al" by (simp add: map_of_eq_None_iff)
  with assms have "r \<noteq> k" by auto
  then have "map_of (AList.update k x al) r = None" using None by (simp add: update_conv')
  then show ?thesis using None update_update_absent[OF assms r]
    by (simp add: ensure_account_def)
next
  case (Some v)
  then have "map_of (AList.update k x al) r \<noteq> None" by (simp add: update_conv')
  then show ?thesis using Some by (auto simp add: ensure_account_def)
qed

lemma ensure_account_key: "k \<in> fst ` set (ensure_account k al)"
  by (cases "map_of al k")
     (auto simp add: ensure_account_def dom_update dest: map_of_SomeD intro: rev_image_eqI)

lemma nonneg_ledger_update:
  "nonneg_ledger al \<Longrightarrow> k = PStr SYSTEM_ACCOUNT \<or> 0 \<le> v \<Longrightarrow>
     nonneg_ledger (AList.update k v al)"
  by (induction al) (auto simp add: nonneg_ledger_def)

lemma nonneg_ledger_ensure: "nonneg_ledger al \<Longrightarrow> nonneg_ledger (ensure_account k al)"
  by (cases "map_of al k") (simp_all add: ensure_account_def nonneg_ledger_update)

lemma nonneg_ledger_get:
  "nonneg_ledger al \<Longrightarrow> k \<noteq> PStr SYSTEM_ACCOUNT \<Longrightarrow> 0 \<le> bal_get al k"
proof (cases "map_of al k")
  case None
  then show ?thesis by (simp add: bal_get_def)
next
  case (Some v)
  assume n: "nonneg_ledger al" and k: "k \<noteq> PStr SYSTEM_ACCOUNT"
  from Some have "(k, v) \<in> set al" by (rule map_of_SomeD)
  with n k have "0 \<le> v" by (auto simp add: nonneg_ledger_def list_all_iff)
  with Some show ?thesis by (simp add: bal_get_def)
qed

text \<open>A transfer that passes the check does to the ledger what the replay does.\<close>

lemma spend_transfer_steps:
  assumes sp: "spend bal tx = Inr (Some bal')"
  shows "\<exists>a. tx_get_default tx ''amount'' (PInt 0) = PInt a \<and>
           (tx_get tx ''from'' = PStr SYSTEM_ACCOUNT \<or> a \<le> bal_get bal (tx_get tx ''from'')) \<and>
           transfer_steps bal tx =
             ([ensure_account (tx_get tx ''from'') bal,
               ensure_account (tx_get tx ''to'') (ensure_account (tx_get tx ''from'') bal),
               ensure_account (tx_get tx ''to'')
                 (AList.update (tx_get tx ''from'') (bal_get bal (tx_get tx ''from'') - a) bal),
               bal'], None)"
proof -
  let ?s = "tx_get tx ''from''" and ?r = "tx_get tx ''to''"
  from sp obtain a where a: "tx_get_default tx ''amount'' (PInt 0) = PInt a"
    by (cases "tx_get_default tx ''amount'' (PInt 0)")
       (auto simp add: spend_def Let_def split: if_splits)
  from sp a have hs: "hashable ?s"
    by (auto simp add: spend_def Let_def split: if_splits)
  from sp a have hr: "hashable ?r"
    by (auto simp add: spend_def Let_def split: if_splits)
  from sp a have ok: "?s = PStr SYSTEM_ACCOUNT \<or> a \<le> bal_get bal ?s"
    by (auto simp add: spend_def Let_def split: if_splits)
  let ?c1 = "AList.update ?s (bal_get bal ?s - a) bal"
  from sp a hr have b': "bal' = AList.update ?r (bal_get ?c1 ?r + a) ?c1"
    by (auto simp add: spend_def Let_def split: if_splits)
  let ?b1 = "ensure_account ?s bal"
  let ?b2 = "ensure_account ?r ?b1"
  have b3: "AList.update ?s (bal_get ?b2 ?s - a) ?b2 = ensure_account ?r ?c1"
    using update_ensure_other[OF ensure_account_key, of ?s "bal_get bal ?s - a" ?r bal]
    by (simp add: bal_get_ensure_account update_ensure_same)
  have b4: "AList.update ?r (bal_get (ensure_account ?r ?c1) ?r + a) (ensure_account ?r ?c1) = bal'"
    by (simp add: b' bal_get_ensure_account update_ensure_same)
  show ?thesis
    using a hs hr ok b3 b4 by (simp add: transfer_steps_def Let_def)
qed

lemma spend_keeps_nonneg:
  assumes sp: "spend bal tx = Inr (Some bal')" and inv: "nonneg_ledger bal"
    and tr: "is_transfer tx" and nn: "nonneg_amount tx"
  shows "snd (transfer_steps bal tx) = None \<and> last (bal # fst (transfer_steps bal tx)) = bal' \<and>
         list_all nonneg_ledger (fst (transfer_steps bal tx))"
proof -
  let ?s = "tx_get tx ''from''" and ?r = "tx_get tx ''to''"
  from spend_transfer_steps[OF sp] obtain a where
    a: "tx_get_default tx ''amount'' (PInt 0) = PInt a"
    and ok: "?s = PStr SYSTEM_ACCOUNT \<or> a \<le> bal_get bal ?s"
    and st: "transfer_steps bal tx =
      ([ensure_account ?s bal, ensure_account ?r (ensure_account ?s bal),
        ensure_account ?r (AList.update ?s (bal_get bal ?s - a) bal), bal'], None)"
    by blast
  from nn tr a have a0: "0 \<le> a" by (simp add: nonneg_amount_def)
  let ?c1 = "AList.update ?s (bal_get bal ?s - a) bal"
  from ok have "?s = PStr SYSTEM_ACCOUNT \<or> 0 \<le> bal_get bal ?s - a" by auto
  then have c1: "nonneg_ledger ?c1" by (rule nonneg_ledger_update[OF inv])
  have "?r = PStr SYSTEM_ACCOUNT \<or> 0 \<le> bal_get ?c1 ?r + a"
  proof (cases "?r = PStr SYSTEM_ACCOUNT")
    case True
    then show ?thesis by simp
  next
    case False
    from nonneg_ledger_get[OF c1 False] a0 show ?thesis by simp
  qed
  then have "nonneg_ledger (AList.update ?r (bal_get ?c1 ?r + a) ?c1)"
    by (rule nonneg_ledger_update[OF c1])
  moreover have "bal' = AList.update ?r (bal_get ?c1 ?r + a) ?c1"
    using sp a by (auto simp add: spend_def Let_def split: if_splits)
  ultimately have "nonneg_ledger bal'" by simp
  with st inv c1 show ?thesis by (simp add: nonneg_ledger_ensure)
qed

lemma validate_txs_trace:
  assumes "validate_txs bal txs = Inr (Some bal')" and "nonneg_ledger bal"
    and "list_all nonneg_amount txs"
  shows "update_loop bal txs = (bal', None) \<and> nonneg_ledger bal' \<and>
         list_all nonneg_ledger (replay_trace bal txs)"
  using assms
proof (induction txs arbitrary: bal)
  case Nil
  then show ?case by simp
next
  case (Cons tx txs)
  show ?case
  proof (cases "is_transfer tx")
    case False
    with Cons show ?thesis by simp
  next
    case True
    with Cons.prems(1) obtain b1 where sp: "spend bal tx = Inr (Some b1)"
      and rest: "validate_txs b1 txs = Inr (Some bal')"
      by (auto split: sum.splits option.splits)
    from Cons.prems(3) have nn: "nonneg_amount tx" and nns: "list_all nonneg_amount txs"
      by simp_all
    from spend_keeps_nonneg[OF sp Cons.prems(2) True nn]
    have e: "snd (transfer_steps bal tx) = None"
      and l: "last (bal # fst (transfer_steps bal tx)) = b1"
      and t: "list_all nonneg_ledger (fst (transfer_steps bal tx))" by simp_all
    have ne: "fst (transfer_steps bal tx) \<noteq> []"
      using spend_transfer_steps[OF sp] by auto
    with l t have b1: "nonneg_ledger b1" by (auto simp add: list_all_iff)
    from Cons.IH[OF rest b1 nns] e l t True show ?thesis
      by (cases "transfer_steps bal tx") (simp add: apply_transfer_def)
  qed
qed

lemma replay_trace_append:
  "update_loop bal xs = (bal', None) \<Longrightarrow>
     replay_trace bal (xs @ ys) = replay_trace bal xs @ replay_trace bal' ys"
proof (induction xs arbitrary: bal)
  case Nil
  then show ?case by simp
next
  case (Cons tx xs)
  then show ?case
    by (cases "transfer_steps bal tx")
       (auto simp add: apply_transfer_def split: if_splits option.splits)
qed

lemma validate_blocks_trace:
  assumes "validate_blocks bal c = Inr True" and "nonneg_ledger bal"
    and "list_all nonneg_amount (concat (map transactions c))"
  shows "snd (replay_chain bal c) = None \<and>
         list_all nonneg_ledger (replay_trace bal (concat (map transactions c)))"
  using assms
proof (induction c arbitrary: bal)
  case Nil
  then show ?case by simp
next
  case (Cons b bs)
  from Cons.prems(1) obtain b1 where v: "validate_txs bal (transactions b) = Inr (Some b1)"
    and rest: "validate_blocks b1 bs = Inr True"
    by (auto split: sum.splits option.splits)
  from Cons.prems(3) have nb: "list_all nonneg_amount (transactions b)"
    and nbs: "list_all nonneg_amount (concat (map transactions bs))" by simp_all
  from validate_txs_trace[OF v Cons.prems(2) nb]
  have u: "update_loop bal (transactions b) = (b1, None)" and n1: "nonneg_ledger b1"
    and t: "list_all nonneg_ledger (replay_trace bal (transactions b))" by simp_all
  from Cons.IH[OF rest n1 nbs] u t show ?case
    by (simp add: replay_trace_append[OF u])
qed

lemma nonneg_initial_balances: "nonneg_ledger initial_balances"
  by (simp add: nonneg_ledger_def initial_balances_def USERS_def INITIAL_SYSTEM_BALANCE_def)

text \<open>
  When no transfer has a negative amount, a chain on which \<^verbatim>\<open>_validate_chain_balances\<close>
  returns True replays to the end, and in every state the ledger goes through (after each
  assignment of each transfer) every principal other than the system account has a
  balance of at least 0.
\<close>

lemma validated_replay_never_negative:
  assumes "validate_chain_balances c = Inr True"
    and "list_all nonneg_amount (concat (map transactions c))"
  shows "snd (replay_chain initial_balances c) = None \<and>
         (\<forall>L \<in> set (replay_trace initial_balances (concat (map transactions c))).
            \<forall>p. p \<noteq> PStr SYSTEM_ACCOUNT \<longrightarrow> 0 \<le> bal_get L p)"
proof -
  from assms have "snd (replay_chain initial_balances c) = None \<and>
     list_all nonneg_ledger (replay_trace initial_balances (concat (map transactions c)))"
    unfolding validate_chain_balances_def
    by (intro validate_blocks_trace nonneg_initial_balances)
  then show ?thesis by (auto simp add: list_all_iff intro: nonneg_ledger_get)
qed

lemma validated_replay_never_negative_example:
  "validate_chain_balances [ex_genesis, ex_block1] = Inr True \<and>
   list_all nonneg_amount (concat (map transactions [ex_genesis, ex_block1])) \<and>
   snd (replay_chain initial_balances [ex_genesis, ex_block1]) = None \<and>
   0 \<le> bal_get (last (replay_trace initial_balances
                        (concat (map transactions [ex_genesis, ex_block1]))))
          (PStr ''dr_alice'')"
proof -
  have h1: "validate_chain_balances [ex_genesis, ex_block1] = Inr True"
    by (simp add: validate_chain_balances_def example_defs tx_defs ledger_defs spend_def)
  have h2: "list_all nonneg_amount (concat (map transactions [ex_genesis, ex_block1]))"
    by (simp add: nonneg_amount_def example_defs tx_defs)
  have ne: "replay_trace initial_balances (concat (map transactions [ex_genesis, ex_block1]))
              \<noteq> []"
    by (simp add: example_defs tx_defs transfer_steps_def Let_def)
  have "PStr ''dr_alice'' \<noteq> PStr SYSTEM_ACCOUNT" by (simp add: SYSTEM_ACCOUNT_def)
  with validated_replay_never_negative[OF h1 h2] last_in_set[OF ne] h1 h2
  show ?thesis by blast
qed

text \<open>
  Claim C2 says that on every chain for which \<^verbatim>\<open>_validate_chain_balances\<close> returns True the
  replay never makes the balance of a principal other than the system account negative.
  The validation only compares the sender's balance with the amount and never looks at
  the sign of the amount, which both admission paths refuse when it is not above 0. A
  transfer of \<open>-5\<close> from \<^verbatim>\<open>dr_alice\<close> to \<^verbatim>\<open>lab_tech_bob\<close> is refused by admission, but a
  chain that carries it passes the validation (and the structural one), a block that
  carries it passes the replay of the \<^verbatim>\<open>NewBlock\<close> handler, and the replay leaves
  \<^verbatim>\<open>lab_tech_bob\<close> with a balance of \<open>-5\<close>.
\<close>

theorem negative_amount_passes_validation:
  "\<not> valid_tx ex_negative \<and>
   validate_chain_balances [ex_genesis, ex_negative_block] = Inr True \<and>
   is_chain_valid demo_digest [ex_genesis, ex_negative_block] None \<and>
   passes_checks demo_digest ex_node ex_negative_block \<and>
   PStr ''lab_tech_bob'' \<noteq> PStr SYSTEM_ACCOUNT \<and>
   bal_get (last (replay_trace initial_balances
                    (concat (map transactions [ex_genesis, ex_negative_block]))))
     (PStr ''lab_tech_bob'') = - 5 \<and>
   bal_get (fst (replay_chain initial_balances [ex_genesis, ex_negative_block]))
     (PStr ''lab_tech_bob'') = - 5"
proof -
  have 1: "\<not> valid_tx ex_negative"
    by (simp add: valid_tx_def example_defs tx_defs)
  have 2: "validate_chain_balances [ex_genesis, ex_negative_block] = Inr True"
    by (simp add: validate_chain_balances_def example_defs tx_defs ledger_defs spend_def)
  have 3: "is_chain_valid demo_digest [ex_genesis, ex_negative_block] None"
    by (simp add: is_chain_valid_def example_defs)
  have 4: "passes_checks demo_digest ex_node ex_negative_block"
    by (simp add: passes_checks_def expected_index_def tip_hash_differs_def
          parent_snapshot_replay_def get_latest_block_def ex_node_def example_defs tx_defs
          ledger_defs spend_def)
  have 5: "PStr ''lab_tech_bob'' \<noteq> PStr SYSTEM_ACCOUNT" by (simp add: SYSTEM_ACCOUNT_def)
  have 6: "bal_get (last (replay_trace initial_balances
                    (concat (map transactions [ex_genesis, ex_negative_block]))))
     (PStr ''lab_tech_bob'') = - 5"
    by (simp add: example_defs tx_defs ledger_defs transfer_steps_def Let_def)
  have 7: "bal_get (fst (replay_chain initial_balances [ex_genesis, ex_negative_block]))
     (PStr ''lab_tech_bob'') = - 5"
    by (simp add: example_defs tx_defs ledger_defs apply_transfer_def transfer_steps_def Let_def)
  from 1 2 3 4 5 6 7 show ?thesis by blast
qed

section \<open>Chains built by appending\<close>

lemma links_valid_append:
  "links_valid H p (bs @ [b]) =
     (links_valid H p bs \<and> hash b = calculate_hash H b \<and>
      previous_hash b = hash (last (p # bs)) \<and> index b = index (last (p # bs)) + 1)"
  by (induction bs arbitrary: p) auto

lemma add_block_valid:
  assumes "c = [] \<or> is_chain_valid H c None" and "consistent_block H b"
  shows "fst (add_block c b) = [] \<or> is_chain_valid H (fst (add_block c b)) None"
proof (cases c)
  case Nil
  with assms show ?thesis
    by (simp add: add_block_def get_latest_block_def is_chain_valid_def consistent_block_def)
next
  case (Cons b0 rest)
  with assms have v: "is_chain_valid H (b0 # rest) None" by simp
  from assms(2) have h: "hash b = calculate_hash H b" by (simp add: consistent_block_def)
  show ?thesis
  proof (cases "previous_hash b = hash (last c) \<and> index b = index (last c) + 1")
    case True
    then have "fst (add_block c b) = b0 # (rest @ [b])"
      using Cons by (simp add: add_block_def get_latest_block_def)
    moreover have "is_chain_valid H (b0 # (rest @ [b])) None"
      using v True h Cons
      by (simp add: is_chain_valid_def links_valid_append split: if_splits)
    ultimately show ?thesis by simp
  next
    case False
    then have "fst (add_block c b) = c"
      using Cons by (auto simp add: add_block_def get_latest_block_def)
    with v Cons show ?thesis by simp
  qed
qed

lemma append_all_valid:
  assumes "c = [] \<or> is_chain_valid H c None" and "list_all (consistent_block H) bs"
  shows "append_all c bs = [] \<or> is_chain_valid H (append_all c bs) None"
  using assms
proof (induction bs arbitrary: c)
  case Nil
  then show ?case by (simp add: append_all_def)
next
  case (Cons b bs)
  from Cons.prems have "fst (add_block c b) = [] \<or> is_chain_valid H (fst (add_block c b)) None"
    by (intro add_block_valid) simp_all
  from Cons.IH[OF this] Cons.prems(2) show ?case by (simp add: append_all_def)
qed

text \<open>
  Claim C6, as stated, fails: \<^verbatim>\<open>add_block\<close> checks only the link to the tip (its docstring
  leaves validation to the node), so the empty chain takes any block of index 0. Here it
  takes one whose \<^verbatim>\<open>previous_hash\<close> is \<^verbatim>\<open>"x"\<close>, and \<^verbatim>\<open>is_chain_valid\<close> rejects the result.
\<close>

theorem append_unchecked_counterexample:
  "append_all [] [ex_bad_genesis] = [ex_bad_genesis] \<and>
   \<not> is_chain_valid demo_digest (append_all [] [ex_bad_genesis]) None"
  by (simp add: append_all_def add_block_def get_latest_block_def is_chain_valid_def
        example_defs)

text \<open>
  Claim C6, amended: for every chain built exclusively through \<^verbatim>\<open>add_block\<close> starting from
  the empty chain, out of blocks whose stored hash equals the recomputed hash and which
  name \<^verbatim>\<open>"0"\<close> as predecessor when their index is 0, \<^verbatim>\<open>is_chain_valid\<close> holds on the
  resulting chain as soon as it has a block.
\<close>

theorem appended_chain_valid:
  assumes "list_all (consistent_block H) bs" and "append_all [] bs \<noteq> []"
  shows "is_chain_valid H (append_all [] bs) None"
  using append_all_valid[of "[]" H bs] assms by simp

theorem appended_chain_valid_witness:
  "list_all (consistent_block demo_digest) [ex_genesis, ex_block1, ex_block2] \<and>
   append_all [] [ex_genesis, ex_block1, ex_block2] = [ex_genesis, ex_block1, ex_block2] \<and>
   is_chain_valid demo_digest (append_all [] [ex_genesis, ex_block1, ex_block2]) None"
proof -
  have h1: "list_all (consistent_block demo_digest) [ex_genesis, ex_block1, ex_block2]"
    by (simp add: consistent_block_def example_defs)
  have h2: "append_all [] [ex_genesis, ex_block1, ex_block2] = [ex_genesis, ex_block1, ex_block2]"
    by (simp add: append_all_def add_block_def get_latest_block_def example_defs)
  then have h3: "append_all [] [ex_genesis, ex_block1, ex_block2] \<noteq> []" by simp
  from appended_chain_valid[OF h1 h3] h1 h2 show ?thesis by simp
qed

section \<open>What \<^verbatim>\<open>is_chain_valid\<close> decides\<close>

text \<open>The loop accepts exactly when every block passes the three checks against the one before.\<close>

lemma links_valid_iff:
  "links_valid H p bs =
     (\<forall>i < length bs. hash (bs ! i) = calculate_hash H (bs ! i) \<and>
                        previous_hash (bs ! i) = hash ((p # bs) ! i) \<and>
                        index (bs ! i) = index ((p # bs) ! i) + 1)"
proof (induction bs arbitrary: p)
  case Nil
  then show ?case by simp
next
  case (Cons b bs)
  show ?case
    by (simp add: Cons.IH All_less_Suc2)
qed

text \<open>
  On a target chain that is not empty (the argument, or the own chain when no argument is
  given), the result is true exactly when the first block is a correctly hashed genesis
  and every later block passes the three checks.
\<close>

lemma is_chain_valid_iff:
  assumes "c = b0 # rest"
  shows "is_chain_valid H own (Some c) =
           (index b0 = 0 \<and> previous_hash b0 = ''0'' \<and> hash b0 = calculate_hash H b0 \<and>
            (\<forall>i < length rest. hash (rest ! i) = calculate_hash H (rest ! i) \<and>
                                 previous_hash (rest ! i) = hash (c ! i) \<and>
                                 index (rest ! i) = index (c ! i) + 1))"
    and "is_chain_valid H c None = is_chain_valid H own (Some c)"
  using assms by (simp_all add: is_chain_valid_def links_valid_iff)

lemma is_chain_valid_own_empty: "is_chain_valid H [] None = False"
  by (simp add: is_chain_valid_def)

text \<open>
  Claim C7 says that \<^verbatim>\<open>is_chain_valid\<close> returns false when the argument chain is empty. The
  code takes the argument only when it is truthy, so an empty argument makes it validate
  the object's own chain: on a new \<^verbatim>\<open>Blockchain\<close>, which holds its genesis block,
  \<^verbatim>\<open>is_chain_valid([])\<close> returns True.
\<close>

theorem is_chain_valid_empty_argument:
  "is_chain_valid H (create_genesis_block H ts []) (Some []) = True"
  by (simp add: is_chain_valid_def create_genesis_block_def Block_def calculate_hash_def)

section \<open>The lock\<close>

lemma lock_restore: "\<not> lock s \<Longrightarrow> s\<lparr>lock := False\<rparr> = s"
  by simp

lemma with_lock_held: "lock s \<Longrightarrow> with_lock body s = Blocks s"
  by (simp add: with_lock_def)

lemma get_balances_up_to_block_free:
  "\<not> lock s \<Longrightarrow>
     get_balances_up_to_block h s =
       (case replay_up_to initial_balances (chain s) h of
          (bal, None) \<Rightarrow> Returns bal s
        | (bal, Some e) \<Rightarrow> Raises e s)"
  by (simp add: get_balances_up_to_block_def with_lock_def split: prod.splits option.splits)

lemma get_balances_from_chain_free:
  "\<not> lock s \<Longrightarrow>
     get_balances_from_chain s =
       (case replay_chain initial_balances (chain s) of
          (bal, None) \<Rightarrow> Returns bal s
        | (bal, Some e) \<Rightarrow> Raises e s)"
  by (simp add: get_balances_from_chain_def with_lock_def split: prod.splits option.splits)

lemma update_balances_from_block_held: "lock s \<Longrightarrow> update_balances_from_block b s = Blocks s"
  by (simp add: update_balances_from_block_def with_lock_def)

lemma recalculate_all_balances_held: "lock s \<Longrightarrow> recalculate_all_balances s = Blocks s"
  by (simp add: recalculate_all_balances_def with_lock_def)

lemma get_balances_up_to_block_held: "lock s \<Longrightarrow> get_balances_up_to_block h s = Blocks s"
  by (simp add: get_balances_up_to_block_def with_lock_def)

lemma get_current_balance_held: "lock s \<Longrightarrow> get_current_balance k s = Blocks s"
  by (simp add: get_current_balance_def get_balances_from_chain_def with_lock_def bnd_def)

section \<open>Peer exchange\<close>

lemmas msg_type_defs = MSG_TYPE_NEW_TRANSACTION_def MSG_TYPE_NEW_BLOCK_def
  MSG_TYPE_REQUEST_CHAIN_def MSG_TYPE_SEND_CHAIN_def MSG_TYPE_REQUEST_PEERS_def
  MSG_TYPE_SEND_PEERS_def

text \<open>
  A \<^verbatim>\<open>RequestPeers\<close> message is answered, under the lock, with the addresses of the peers;
  a \<^verbatim>\<open>SendPeers\<close> message only extends the addresses to connect to.
\<close>

lemma request_peers_answered:
  "\<not> lock s \<Longrightarrow>
     process_message H now MSG_TYPE_REQUEST_PEERS data source_addr s =
       Returns () (send_message source_addr MSG_TYPE_SEND_PEERS (PeersData (peers s)) s)"
  by (simp add: process_message_def with_lock_def send_message_def msg_type_defs)

lemma add_new_peers_frame:
  "chain (add_new_peers addrs s) = chain s \<and>
   pending_transactions (add_new_peers addrs s) = pending_transactions s \<and>
   E_CASH_BALANCES (add_new_peers addrs s) = E_CASH_BALANCES s \<and>
   lock (add_new_peers addrs s) = lock s \<and> events (add_new_peers addrs s) = events s"
  by (induction addrs arbitrary: s) simp_all

lemma send_peers_example:
  "process_message demo_digest demo_now MSG_TYPE_SEND_PEERS
     (PeersData [(''127.0.0.1'', 5000), ex_peer, ex_peer]) ex_peer ex_node =
   Returns () (ex_node\<lparr>peer_addresses_to_connect := [ex_peer]\<rparr>)"
  by (simp add: process_message_def msg_type_defs ex_node_def ex_peer_def)

section \<open>Blocks that fail a check\<close>

lemma block_checks_free:
  assumes "\<not> lock s"
  shows "block_checks H b s =
     (case get_latest_block (chain s) of
        None \<Rightarrow>
          if index b \<noteq> 0 then Returns None s
          else if hash b \<noteq> calculate_hash H b then Returns (Some False) s
          else (case parent_snapshot_replay s b of
                  Inl e \<Rightarrow> Raises e s
                | Inr None \<Rightarrow> Returns (Some False) s
                | Inr (Some bal') \<Rightarrow> Returns (Some True) s)
      | Some tip \<Rightarrow>
          if index b \<noteq> index tip + 1 then Returns (Some False) s
          else if previous_hash b \<noteq> hash tip then Returns (Some False) (request_chain_from_peers s)
          else if hash b \<noteq> calculate_hash H b then Returns (Some False) s
          else (case parent_snapshot_replay s b of
                  Inl e \<Rightarrow> Raises e s
                | Inr None \<Rightarrow> Returns (Some False) s
                | Inr (Some bal') \<Rightarrow> Returns (Some True) s))"
  using assms
  by (simp add: block_checks_def get_balances_up_to_block_free parent_snapshot_replay_def bnd_def
        split: option.splits prod.splits sum.splits)

text \<open>
  Claim C3. A block received in a \<^verbatim>\<open>NewBlock\<close> message that fails an acceptance check (its
  index is not the expected one, its \<^verbatim>\<open>previous_hash\<close> differs from the tip's hash, its
  stored hash does not match the recomputed one, or a transfer is unaffordable in the replay
  against the parent's balances) is dropped: the handler returns, and the chain, the
  pending pool and the ledger are as before. Nothing is sent, except that a \<^verbatim>\<open>RequestChain\<close>
  broadcast is issued in exactly the case where the index is the expected one and
  \<^verbatim>\<open>previous_hash\<close> differs from the tip's hash.
\<close>

theorem failed_block_is_dropped:
  assumes "\<not> lock s" and "acceptance_check_fails H s b"
  shows "\<exists>s'. process_message H now MSG_TYPE_NEW_BLOCK (BlockData b) source_addr s = Returns () s' \<and>
           chain s' = chain s \<and> pending_transactions s' = pending_transactions s \<and>
           E_CASH_BALANCES s' = E_CASH_BALANCES s \<and> lock s' = lock s \<and>
           events s' = events s @
             (if index b = expected_index s \<and> tip_hash_differs s b
              then [Broadcast MSG_TYPE_REQUEST_CHAIN (TextData []) None] else [])"
proof (cases "get_latest_block (chain s)")
  case None
  with assms show ?thesis
    by (auto simp add: process_message_def process_new_block_def block_checks_free bnd_def
          acceptance_check_fails_def expected_index_def tip_hash_differs_def
          MSG_TYPE_NEW_BLOCK_def MSG_TYPE_NEW_TRANSACTION_def)
next
  case (Some tip)
  with assms show ?thesis
    by (auto simp add: process_message_def process_new_block_def block_checks_free bnd_def
          acceptance_check_fails_def expected_index_def tip_hash_differs_def
          request_chain_from_peers_def broadcast_def
          MSG_TYPE_NEW_BLOCK_def MSG_TYPE_NEW_TRANSACTION_def)
qed

theorem failed_block_is_dropped_witness:
  "\<not> lock ex_node \<and> acceptance_check_fails demo_digest ex_node ex_forked_block \<and>
   (\<exists>s'. process_message demo_digest demo_now MSG_TYPE_NEW_BLOCK (BlockData ex_forked_block)
            ex_peer ex_node = Returns () s' \<and>
         chain s' = chain ex_node \<and> pending_transactions s' = pending_transactions ex_node \<and>
         E_CASH_BALANCES s' = E_CASH_BALANCES ex_node \<and> lock s' = lock ex_node \<and>
         events s' = [Broadcast MSG_TYPE_REQUEST_CHAIN (TextData []) None])"
proof -
  have h1: "\<not> lock ex_node" by (simp add: ex_node_def)
  have t: "tip_hash_differs ex_node ex_forked_block"
    by (simp add: tip_hash_differs_def get_latest_block_def ex_node_def example_defs)
  then have h2: "acceptance_check_fails demo_digest ex_node ex_forked_block"
    by (simp add: acceptance_check_fails_def)
  have i: "index ex_forked_block = expected_index ex_node"
    by (simp add: expected_index_def get_latest_block_def ex_node_def example_defs)
  have e: "events ex_node = []" by (simp add: ex_node_def)
  from failed_block_is_dropped[OF h1 h2, of demo_now ex_peer] h1 h2 t i e
  show ?thesis by simp
qed

section \<open>Calls that wait for the lock they hold\<close>

lemma fst_add_block_linked:
  "(case get_latest_block c of
      None \<Rightarrow> index b = 0
    | Some tip \<Rightarrow> previous_hash b = hash tip \<and> index b = index tip + 1) \<Longrightarrow>
   fst (add_block c b) = c @ [b]"
  by (cases "get_latest_block c") (simp_all add: add_block_def)

text \<open>
  A block that passes every check is appended and purged from the pool under the lock;
  the handler then calls \<^verbatim>\<open>_update_balances_from_block\<close>, which waits for that lock.
\<close>

lemma accepted_block_blocks:
  assumes "\<not> lock s" and "passes_checks H s b"
  shows "process_message H now MSG_TYPE_NEW_BLOCK (BlockData b) source_addr s =
           Blocks (s\<lparr>chain := chain s @ [b],
                     pending_transactions := purge_pending (transactions b) (pending_transactions s),
                     lock := True\<rparr>)"
proof -
  from assms have c: "block_checks H b s = Returns (Some True) s"
    by (auto simp add: block_checks_free passes_checks_def expected_index_def
          tip_hash_differs_def split: option.splits sum.splits)
  from assms(2) have l: "(case get_latest_block (chain s) of
      None \<Rightarrow> index b = 0
    | Some tip \<Rightarrow> previous_hash b = hash tip \<and> index b = index tip + 1)"
    by (auto simp add: passes_checks_def expected_index_def tip_hash_differs_def
          split: option.splits)
  then have a: "accept_locked now b (s\<lparr>lock := True\<rparr>) =
      Blocks (s\<lparr>lock := True, chain := chain s @ [b],
                pending_transactions := purge_pending (transactions b) (pending_transactions s)\<rparr>)"
    using fst_add_block_linked[OF l]
    by (simp add: accept_locked_def update_balances_from_block_held bnd_def)
  from assms(1) c a show ?thesis
    by (simp add: process_message_def process_new_block_def bnd_def with_lock_def
          MSG_TYPE_NEW_BLOCK_def MSG_TYPE_NEW_TRANSACTION_def)
qed

text \<open>A received chain that is no longer than the own one, or fails a validation, is ignored.\<close>

lemma resolve_conflicts_ignores:
  assumes "\<not> lock s"
    and "length received_chain \<le> length (chain s) \<or> \<not> is_chain_valid H received_chain None \<or>
         validate_chain_balances received_chain = Inr False"
  shows "resolve_conflicts H received_chain s = Returns False s"
  using assms by (auto simp add: resolve_conflicts_def with_lock_def split: sum.splits)

text \<open>
  Claim C1 says that, after a longer valid chain has replaced the local one, the ledger is
  recomputed from scratch. \<^verbatim>\<open>resolve_conflicts\<close> replaces the chain and reconciles the pool
  inside \<^verbatim>\<open>with self.lock\<close>, and there calls \<^verbatim>\<open>_recalculate_all_balances\<close>, which starts
  with \<^verbatim>\<open>with self.lock\<close> itself: the call waits for ever, the lock stays held and the
  balance table stays as it was.
\<close>

theorem resolve_conflicts_blocks:
  assumes "\<not> lock s" and "length (chain s) < length received_chain"
    and "is_chain_valid H received_chain None"
    and "validate_chain_balances received_chain = Inr True"
  shows "resolve_conflicts H received_chain s =
           Blocks (s\<lparr>chain := received_chain,
                     pending_transactions :=
                       purge_pending (concat (map transactions received_chain))
                         (pending_transactions s),
                     lock := True\<rparr>)"
  using assms
  by (simp add: resolve_conflicts_def with_lock_def reconcile_pending_transactions_def
        recalculate_all_balances_held bnd_def)

theorem resolve_conflicts_blocks_witness:
  "\<not> lock ex_node \<and> length (chain ex_node) < length [ex_genesis, ex_block1] \<and>
   is_chain_valid demo_digest [ex_genesis, ex_block1] None \<and>
   validate_chain_balances [ex_genesis, ex_block1] = Inr True \<and>
   resolve_conflicts demo_digest [ex_genesis, ex_block1]
       (ex_node\<lparr>pending_transactions := [ex_payment, ex_registration]\<rparr>) =
     Blocks \<lparr>host = ''127.0.0.1'', port = 5000, peers = [], peer_addresses_to_connect = [],
             chain = [ex_genesis, ex_block1], pending_transactions = [ex_registration],
             E_CASH_BALANCES = initial_balances, lock = True, events = [], ticks = 0\<rparr> \<and>
   fst (replay_chain initial_balances [ex_genesis, ex_block1]) \<noteq> initial_balances"
proof -
  let ?s = "ex_node\<lparr>pending_transactions := [ex_payment, ex_registration]\<rparr>"
  have h1: "\<not> lock ?s" by (simp add: ex_node_def)
  have h2: "length (chain ?s) < length [ex_genesis, ex_block1]" by (simp add: ex_node_def)
  have h3: "is_chain_valid demo_digest [ex_genesis, ex_block1] None"
    by (simp add: is_chain_valid_def example_defs)
  have h4: "validate_chain_balances [ex_genesis, ex_block1] = Inr True"
    by (simp add: validate_chain_balances_def example_defs tx_defs ledger_defs spend_def)
  have p: "purge_pending (concat (map transactions [ex_genesis, ex_block1]))
             [ex_payment, ex_registration] = [ex_registration]"
    by (simp add: purge_pending_def example_defs)
  have r: "fst (replay_chain initial_balances [ex_genesis, ex_block1]) \<noteq> initial_balances"
    by (simp add: example_defs tx_defs ledger_defs apply_transfer_def transfer_steps_def Let_def)
  from resolve_conflicts_blocks[OF h1 h2 h3 h4] h1 h2 h3 h4 p r show ?thesis
    by (simp add: ex_node_def)
qed

text \<open>
  Claim C5 says that \<^verbatim>\<open>mine_block_local\<close> appends one block when a transaction survives its
  filter. Inside \<^verbatim>\<open>with self.lock\<close> it calls \<^verbatim>\<open>get_balances_up_to_block\<close>, which starts with
  \<^verbatim>\<open>with self.lock\<close> itself: whenever the pool is not empty the call waits for ever, before
  any transaction is looked at, and the chain, the pool and the ledger stay as they were.
\<close>

theorem mine_block_local_blocks:
  assumes "\<not> lock s" and "pending_transactions s \<noteq> []" and "chain s \<noteq> []"
  shows "mine_block_local H now s = Blocks (s\<lparr>lock := True\<rparr>)"
  using assms
  by (simp add: mine_block_local_def mine_locked_def with_lock_def get_latest_block_def
        get_balances_up_to_block_held bnd_def)

theorem mine_block_local_blocks_witness:
  "\<not> lock (ex_node\<lparr>pending_transactions := [ex_registration]\<rparr>) \<and>
   pending_transactions (ex_node\<lparr>pending_transactions := [ex_registration]\<rparr>) \<noteq> [] \<and>
   chain (ex_node\<lparr>pending_transactions := [ex_registration]\<rparr>) \<noteq> [] \<and>
   mine_block_local demo_digest demo_now (ex_node\<lparr>pending_transactions := [ex_registration]\<rparr>) =
     Blocks \<lparr>host = ''127.0.0.1'', port = 5000, peers = [], peer_addresses_to_connect = [],
             chain = [ex_genesis], pending_transactions = [ex_registration],
             E_CASH_BALANCES = initial_balances, lock = True, events = [], ticks = 0\<rparr>"
proof -
  let ?s = "ex_node\<lparr>pending_transactions := [ex_registration]\<rparr>"
  have h1: "\<not> lock ?s" by (simp add: ex_node_def)
  have h2: "pending_transactions ?s \<noteq> []" by simp
  have h3: "chain ?s \<noteq> []" by (simp add: ex_node_def)
  from mine_block_local_blocks[OF h1 h2 h3, of demo_digest demo_now] h1 h2 h3 show ?thesis
    by (simp add: ex_node_def)
qed

text \<open>
  The filter that \<^verbatim>\<open>mine_block_local\<close> would run: it keeps transactions in pool order,
  every transaction that is not a transfer among them.
\<close>

lemma select_txs_subseq: "select_txs bal txs = Inr kept \<Longrightarrow> subseq kept txs"
proof (induction txs arbitrary: bal kept)
  case Nil
  then show ?case by simp
next
  case (Cons tx txs)
  then show ?case
    by (auto split: if_splits sum.splits option.splits)
qed

lemma select_txs_keeps_others:
  "select_txs bal txs = Inr kept \<Longrightarrow> filter (\<lambda>tx. \<not> is_transfer tx) kept =
     filter (\<lambda>tx. \<not> is_transfer tx) txs"
proof (induction txs arbitrary: bal kept)
  case Nil
  then show ?case by simp
next
  case (Cons tx txs)
  then show ?case
    by (auto split: if_splits sum.splits option.splits)
qed

lemma mine_block_local_empty_pool:
  "\<not> lock s \<Longrightarrow> pending_transactions s = [] \<Longrightarrow> mine_block_local H now s = Returns False s"
  by (simp add: mine_block_local_def mine_locked_def with_lock_def bnd_def)

text \<open>
  What \<^verbatim>\<open>_generate_system_transfers_for_block\<close> does: it waits for ever when the lock is
  held; otherwise it returns the empty list for a block without transactions and raises
  \<^verbatim>\<open>UnboundLocalError\<close> at the first transaction of any other block.
\<close>

lemma generate_system_transfers_for_block_eq:
  "generate_system_transfers_for_block now b s =
     (if lock s then Blocks s
      else if transactions b = [] then Returns [] s
      else Raises UnboundLocalError s)"
  by (cases "transactions b") (simp_all add: generate_system_transfers_for_block_def
        with_lock_def bnd_def)

text \<open>
  Had \<^verbatim>\<open>patient_id\<close> been bound to the transaction's patient, the loop would have matched the
  result of the blood test with the consultation that ordered it and produced the reward
  of 500 for \<^verbatim>\<open>dr_alice\<close>.
\<close>

lemma generate_loop_patient_bound:
  "generate_loop demo_now ex_lab_block [ex_genesis, ex_consultation_block, ex_lab_block]
     (Some (PStr ''p1'')) (transactions ex_lab_block) [] ex_node2 =
   Returns [reward_tx (PStr ''dr_alice'') 500 ''Reward for Lab Test Order (Blood Test)'' ''now'']
     (ex_node2\<lparr>ticks := 1\<rparr>)"
  by (simp add: get_history_from_copy_def py_in_def py_eq_def py_format_def read_clock_def
        demo_now_def ex_node2_def example_defs tx_defs)

text \<open>
  Claim C9 says that after a block is accepted a reward transfer is synthesised for each
  matching \<^verbatim>\<open>LabTestResult\<close> and \<^verbatim>\<open>PrescriptionFilled\<close> and submitted for admission. No
  accepted block gets that far: the \<^verbatim>\<open>NewBlock\<close> handler waits for ever for the lock it
  holds (as \<^verbatim>\<open>mine_block_local\<close> does) before the synthesis is called, and the synthesis
  itself, called with the lock free, reads \<^verbatim>\<open>patient_id\<close> before any assignment to it and
  raises \<^verbatim>\<open>UnboundLocalError\<close>.
\<close>

theorem reward_synthesis_never_produces:
  assumes "\<not> lock s" and "passes_checks H s b" and "transactions b \<noteq> []"
  shows "process_message H now MSG_TYPE_NEW_BLOCK (BlockData b) source_addr s =
           Blocks (s\<lparr>chain := chain s @ [b],
                     pending_transactions := purge_pending (transactions b) (pending_transactions s),
                     lock := True\<rparr>) \<and>
         generate_system_transfers_for_block now b s = Raises UnboundLocalError s \<and>
         generate_system_transfers_for_block now b (s\<lparr>lock := True\<rparr>) = Blocks (s\<lparr>lock := True\<rparr>)"
  using assms accepted_block_blocks[OF assms(1,2)]
  by (simp add: generate_system_transfers_for_block_eq)

theorem reward_synthesis_never_produces_witness:
  "\<not> lock ex_node2 \<and> passes_checks demo_digest ex_node2 ex_lab_block \<and>
   transactions ex_lab_block \<noteq> [] \<and>
   process_message demo_digest demo_now MSG_TYPE_NEW_BLOCK (BlockData ex_lab_block) ex_peer ex_node2 =
     Blocks \<lparr>host = ''127.0.0.1'', port = 5000, peers = [], peer_addresses_to_connect = [],
             chain = [ex_genesis, ex_consultation_block, ex_lab_block], pending_transactions = [],
             E_CASH_BALANCES = initial_balances, lock = True, events = [], ticks = 0\<rparr> \<and>
   generate_system_transfers_for_block demo_now ex_lab_block ex_node2 =
     Raises UnboundLocalError ex_node2"
proof -
  have h1: "\<not> lock ex_node2" by (simp add: ex_node2_def)
  have h2: "passes_checks demo_digest ex_node2 ex_lab_block"
    by (simp add: passes_checks_def expected_index_def tip_hash_differs_def
          parent_snapshot_replay_def get_latest_block_def ex_node2_def example_defs tx_defs)
  have h3: "transactions ex_lab_block \<noteq> []" by (simp add: example_defs)
  have p: "purge_pending (transactions ex_lab_block) [ex_lab_result] = []"
    by (simp add: purge_pending_def example_defs)
  from reward_synthesis_never_produces[OF h1 h2 h3, of demo_now ex_peer] h1 h2 h3 p
  show ?thesis by (simp add: ex_node2_def)
qed

section \<open>Admission to the pending pool\<close>

lemma should_add_free:
  assumes "\<not> lock s"
  shows "should_add tx s =
     (if tx_get tx ''type'' = PStr TX_TRANSFER_ECASH \<and> tx_get tx ''from'' \<noteq> PStr SYSTEM_ACCOUNT
      then (case replay_chain initial_balances (chain s) of
              (bal, None) \<Rightarrow>
                if hashable (tx_get tx ''from'')
                then (case tx_get tx ''amount'' of
                        PInt a \<Rightarrow> Returns (\<not> bal_get bal (tx_get tx ''from'') < a) s
                      | _ \<Rightarrow> Raises TypeError s)
                else Raises TypeError s
            | (bal, Some e) \<Rightarrow> Raises e s)
      else Returns True s)"
proof (cases "tx_get tx ''type'' = PStr TX_TRANSFER_ECASH \<and> tx_get tx ''from'' \<noteq> PStr SYSTEM_ACCOUNT")
  case False
  then show ?thesis by (auto simp add: should_add_def)
next
  case True
  obtain bal err where r: "replay_chain initial_balances (chain s) = (bal, err)"
    by (cases "replay_chain initial_balances (chain s)")
  from True assms r show ?thesis
    by (cases err)
       (simp_all add: should_add_def get_current_balance_def get_balances_from_chain_free bnd_def)
qed

text \<open>The balance check passes exactly for the format-valid transactions the rule admits.\<close>

lemma should_add_admissible:
  assumes "\<not> lock s" and "valid_tx tx"
  shows "(admissible s tx \<and> should_add tx s = Returns True s) \<or>
         (\<not> admissible s tx \<and>
            (should_add tx s = Returns False s \<or> (\<exists>e. should_add tx s = Raises e s)))"
proof (cases "tx_get tx ''type'' = PStr TX_TRANSFER_ECASH \<and> tx_get tx ''from'' \<noteq> PStr SYSTEM_ACCOUNT")
  case False
  with assms show ?thesis
    by (auto simp add: should_add_free admissible_def valid_tx_def split: pyval.splits if_splits)
next
  case True
  from assms(2) True obtain a where a: "tx_get tx ''amount'' = PInt a" and pos: "0 < a"
    and keys: "has_key tx ''type''" "has_key tx ''from''" "has_key tx ''to''" "has_key tx ''amount''"
    by (cases "tx_get tx ''amount''") (auto simp add: valid_tx_def split: if_splits)
  obtain bal err where r: "replay_chain initial_balances (chain s) = (bal, err)"
    by (cases "replay_chain initial_balances (chain s)")
  show ?thesis
  proof (cases err)
    case (Some e)
    with assms(1) True a pos keys r show ?thesis
      by (simp add: should_add_free admissible_def chain_confirmed_balance_def)
  next
    case None
    with assms(1) True a pos keys r show ?thesis
      by (cases "hashable (tx_get tx ''from'')")
         (auto simp add: should_add_free admissible_def chain_confirmed_balance_def)
  qed
qed

lemma admissible_valid_tx: "admissible s tx \<Longrightarrow> valid_tx tx"
  by (auto simp add: admissible_def valid_tx_def split: if_splits pyval.splits)

lemma local_admission:
  assumes "\<not> lock s"
  shows "pending_transactions (final_state (add_transaction_local now tx s)) =
           (if admissible s tx \<and> \<not> pooled (stamped now s tx) (pending_transactions s)
            then pending_transactions s @ [stamped now s tx]
            else pending_transactions s) \<and>
         \<not> blocked (add_transaction_local now tx s) \<and>
         (if admissible s tx then returns (add_transaction_local now tx s) else True)"
proof (cases "valid_tx tx")
  case False
  then have "\<not> admissible s tx" using admissible_valid_tx by blast
  with False show ?thesis by (simp add: add_transaction_local_def)
next
  case True
  from should_add_admissible[OF assms True] show ?thesis
  proof (elim disjE conjE exE)
    assume "admissible s tx" and "should_add tx s = Returns True s"
    with True assms show ?thesis
      by (simp add: add_transaction_local_def bnd_def with_lock_def stamped_def read_clock_def
            broadcast_def)
  next
    assume "\<not> admissible s tx" and "should_add tx s = Returns False s"
    with True show ?thesis by (simp add: add_transaction_local_def bnd_def)
  next
    fix e
    assume "\<not> admissible s tx" and "should_add tx s = Raises e s"
    with True show ?thesis by (simp add: add_transaction_local_def bnd_def)
  qed
qed

lemma remote_admission:
  assumes "\<not> lock s"
    and "tx_get tx ''type'' \<noteq> PStr TX_TRANSFER_ECASH \<or> tx_get tx ''from'' = PStr SYSTEM_ACCOUNT"
  shows "pending_transactions
           (final_state (process_message H now MSG_TYPE_NEW_TRANSACTION (TxData tx) source_addr s)) =
           (if admissible s tx \<and> \<not> pooled tx (pending_transactions s)
            then pending_transactions s @ [tx]
            else pending_transactions s) \<and>
         returns (process_message H now MSG_TYPE_NEW_TRANSACTION (TxData tx) source_addr s)"
proof -
  from assms(2) have sa: "should_add tx (s\<lparr>lock := True\<rparr>) = Returns True (s\<lparr>lock := True\<rparr>)"
    by (auto simp add: should_add_def)
  from assms(2) have "admissible s tx = valid_tx tx"
    by (auto simp add: admissible_def valid_tx_def split: pyval.splits)
  with assms(1) sa show ?thesis
    by (simp add: process_message_def process_new_transaction_def with_lock_def bnd_def
          broadcast_def MSG_TYPE_NEW_TRANSACTION_def)
qed

text \<open>
  A transfer from a sender other than the system account, received in a \<^verbatim>\<open>NewTransaction\<close>
  message and not pooled yet: the handler checks the balance inside \<^verbatim>\<open>with self.lock\<close>,
  through \<^verbatim>\<open>get_current_balance\<close>, which takes the lock itself, and waits for ever.
\<close>

lemma remote_transfer_blocks:
  assumes "\<not> lock s" and "valid_tx tx" and "tx_get tx ''type'' = PStr TX_TRANSFER_ECASH"
    and "tx_get tx ''from'' \<noteq> PStr SYSTEM_ACCOUNT" and "\<not> pooled tx (pending_transactions s)"
  shows "process_message H now MSG_TYPE_NEW_TRANSACTION (TxData tx) source_addr s =
           Blocks (s\<lparr>lock := True\<rparr>)"
  using assms
  by (simp add: process_message_def process_new_transaction_def with_lock_def bnd_def
        should_add_def get_current_balance_held MSG_TYPE_NEW_TRANSACTION_def)

text \<open>
  Claim C4, as stated, fails: admission asks for a \<^verbatim>\<open>type\<close> key and never looks at its
  value unless it is \<^verbatim>\<open>TRANSFER_ECASH\<close>, so a transaction of a kind that the data model
  does not list is admitted.
\<close>

theorem unrecognized_type_counterexample:
  "\<not> recognized_type ex_unknown \<and>
   pending_transactions (final_state (add_transaction_local demo_now ex_unknown ex_node)) =
     [ex_unknown]"
  by (simp add: recognized_type_def add_transaction_local_def valid_tx_def should_add_def
        bnd_def with_lock_def pooled_def broadcast_def ex_node_def example_defs tx_defs)

text \<open>
  Claim C4, amended. On a node whose lock is free, a transaction submitted locally is
  appended to the pending pool (with the time written in as its \<^verbatim>\<open>timestamp\<close> when it
  carries none) if and only if it carries a \<^verbatim>\<open>type\<close> key, of any value, and, when its type
  is \<^verbatim>\<open>TRANSFER_ECASH\<close>, it also carries \<^verbatim>\<open>from\<close>, \<^verbatim>\<open>to\<close> and an integer \<^verbatim>\<open>amount\<close> above 0
  that, unless \<^verbatim>\<open>from\<close> is the system account, the sender's chain-confirmed balance
  covers, and its canonical encoding is not pooled yet; in every other case the pool is
  unchanged. The call never waits for the lock, and it returns when the transaction is
  admissible. The same holds, without the timestamp step, for a transaction received in a
  \<^verbatim>\<open>NewTransaction\<close> message that is not a transfer from a sender other than the system
  account.
\<close>

theorem admission_rule:
  assumes "\<not> lock s"
  shows "pending_transactions (final_state (add_transaction_local now tx s)) =
           (if admissible s tx \<and> \<not> pooled (stamped now s tx) (pending_transactions s)
            then pending_transactions s @ [stamped now s tx]
            else pending_transactions s) \<and>
         \<not> blocked (add_transaction_local now tx s) \<and>
         (admissible s tx \<longrightarrow> returns (add_transaction_local now tx s)) \<and>
         (tx_get tx ''type'' \<noteq> PStr TX_TRANSFER_ECASH \<or> tx_get tx ''from'' = PStr SYSTEM_ACCOUNT \<longrightarrow>
          returns (process_message H now MSG_TYPE_NEW_TRANSACTION (TxData tx) source_addr s) \<and>
          pending_transactions
            (final_state (process_message H now MSG_TYPE_NEW_TRANSACTION (TxData tx) source_addr s)) =
            (if admissible s tx \<and> \<not> pooled tx (pending_transactions s)
             then pending_transactions s @ [tx]
             else pending_transactions s))"
  using local_admission[OF assms, of now tx] remote_admission[OF assms, of tx H now source_addr]
  by (simp split: if_splits)

theorem admission_rule_witness:
  "\<not> lock ex_node1 \<and> \<not> lock ex_node \<and>
   admissible ex_node1 ex_payment \<and>
   pending_transactions (final_state (add_transaction_local demo_now ex_payment ex_node1)) =
     [ex_payment] \<and>
   \<not> admissible ex_node ex_payment \<and>
   pending_transactions (final_state (add_transaction_local demo_now ex_payment ex_node)) = [] \<and>
   pending_transactions
     (final_state (process_message demo_digest demo_now MSG_TYPE_NEW_TRANSACTION (TxData ex_reward)
                     ex_peer ex_node1)) = [ex_reward]"
proof -
  have h1: "\<not> lock ex_node1" by (simp add: ex_node1_def)
  have h0: "\<not> lock ex_node" by (simp add: ex_node_def)
  have r1: "replay_chain initial_balances (chain ex_node1) =
     ([(PStr ''dr_alice'', 400), (PStr ''lab_tech_bob'', 100), (PStr ''pharm_charlie'', 0),
       (PStr ''SYSTEM_BANK_001'', 999500)], None)"
    by (simp add: ex_node1_def example_defs tx_defs ledger_defs apply_transfer_def
          transfer_steps_def Let_def)
  have r0: "replay_chain initial_balances (chain ex_node) = (initial_balances, None)"
    by (simp add: ex_node_def example_defs tx_defs)
  have a1: "admissible ex_node1 ex_payment"
    by (simp add: admissible_def chain_confirmed_balance_def r1 example_defs tx_defs bal_get_def)
  have "chain_confirmed_balance ex_node (PStr ''dr_alice'') = Some 0"
    unfolding chain_confirmed_balance_def r0 by (simp add: ledger_defs)
  then have a0: "\<not> admissible ex_node ex_payment"
    by (simp add: admissible_def example_defs tx_defs)
  have a2: "admissible ex_node1 ex_reward"
    by (simp add: admissible_def example_defs tx_defs)
  have p1: "pending_transactions ex_node1 = []" by (simp add: ex_node1_def)
  have p0: "pending_transactions ex_node = []" by (simp add: ex_node_def)
  have s1: "stamped demo_now ex_node1 ex_payment = ex_payment"
    by (simp add: stamped_def example_defs tx_defs)
  have sys: "tx_get ex_reward ''from'' = PStr SYSTEM_ACCOUNT" by (simp add: example_defs tx_defs)
  from admission_rule[OF h1, of demo_now ex_payment]
    admission_rule[OF h0, of demo_now ex_payment]
    admission_rule[OF h1, of demo_now ex_reward demo_digest ex_peer]
    h1 h0 a1 a0 a2 p1 p0 s1 sys
  show ?thesis by (simp add: pooled_def)
qed

section \<open>Idempotent admission\<close>

text \<open>
  Claim C8, as stated, fails for local submission: \<^verbatim>\<open>add_transaction_local\<close> writes the
  current time into a transaction without \<^verbatim>\<open>timestamp\<close> before it looks for a duplicate,
  so a transaction that equals a pooled one, and carries no timestamp, is pooled again
  under its new timestamp; and the same transaction without timestamp, submitted twice,
  is pooled twice.
\<close>

theorem resubmission_counterexample:
  "pooled ex_unstamped (pending_transactions (ex_node\<lparr>pending_transactions := [ex_unstamped]\<rparr>)) \<and>
   pending_transactions
     (final_state (add_transaction_local demo_now ex_unstamped
                     (ex_node\<lparr>pending_transactions := [ex_unstamped]\<rparr>))) =
     [ex_unstamped, ex_unstamped @ [(''timestamp'', PStr ''now'')]] \<and>
   pending_transactions
     (final_state (add_transaction_local demo_now ex_unstamped
                     (final_state (add_transaction_local demo_now ex_unstamped ex_node)))) =
     [ex_unstamped @ [(''timestamp'', PStr ''now'')],
      ex_unstamped @ [(''timestamp'', PStr ''now+'')]]"
  by (simp add: add_transaction_local_def valid_tx_def should_add_def bnd_def with_lock_def
        pooled_def broadcast_def read_clock_def demo_now_def ex_node_def example_defs tx_defs)

text \<open>
  Claim C8, amended. On a node whose lock is free, for every pool and every transaction
  whose canonical encoding matches that of a pooled transaction: receiving it in a
  \<^verbatim>\<open>NewTransaction\<close> message returns and leaves the node as it was, and so does
  submitting it locally when it carries a \<^verbatim>\<open>timestamp\<close> (that call returns or raises, it
  never waits); in particular the pool is unchanged and nothing is broadcast.
\<close>

theorem resubmission_leaves_pool:
  assumes "\<not> lock s" and "pooled tx (pending_transactions s)"
  shows "process_message H now MSG_TYPE_NEW_TRANSACTION (TxData tx) source_addr s = Returns () s \<and>
         (has_key tx ''timestamp'' \<longrightarrow>
            final_state (add_transaction_local now tx s) = s \<and>
            \<not> blocked (add_transaction_local now tx s))"
proof -
  have remote: "process_message H now MSG_TYPE_NEW_TRANSACTION (TxData tx) source_addr s = Returns () s"
    using assms
    by (simp add: process_message_def process_new_transaction_def with_lock_def
          MSG_TYPE_NEW_TRANSACTION_def)
  have local: "final_state (add_transaction_local now tx s) = s \<and>
               \<not> blocked (add_transaction_local now tx s)" if ts: "has_key tx ''timestamp''"
  proof (cases "valid_tx tx")
    case False
    then show ?thesis by (simp add: add_transaction_local_def)
  next
    case True
    from should_add_admissible[OF assms(1) True] show ?thesis
    proof (elim disjE conjE exE)
      assume "should_add tx s = Returns True s"
      with True assms ts show ?thesis
        by (simp add: add_transaction_local_def bnd_def with_lock_def)
    next
      assume "should_add tx s = Returns False s"
      with True show ?thesis by (simp add: add_transaction_local_def bnd_def)
    next
      fix e
      assume "should_add tx s = Raises e s"
      with True show ?thesis by (simp add: add_transaction_local_def bnd_def)
    qed
  qed
  from remote local show ?thesis by blast
qed

theorem resubmission_leaves_pool_witness:
  "\<not> lock (ex_node\<lparr>pending_transactions := [ex_registration]\<rparr>) \<and>
   pooled (rev ex_registration) (pending_transactions (ex_node\<lparr>pending_transactions := [ex_registration]\<rparr>)) \<and>
   has_key (rev ex_registration) ''timestamp'' \<and>
   process_message demo_digest demo_now MSG_TYPE_NEW_TRANSACTION
       (TxData (rev ex_registration)) ex_peer
       (ex_node\<lparr>pending_transactions := [ex_registration]\<rparr>) =
     Returns () (ex_node\<lparr>pending_transactions := [ex_registration]\<rparr>) \<and>
   final_state (add_transaction_local demo_now (rev ex_registration)
                  (ex_node\<lparr>pending_transactions := [ex_registration]\<rparr>)) =
     ex_node\<lparr>pending_transactions := [ex_registration]\<rparr>"
proof -
  let ?s = "ex_node\<lparr>pending_transactions := [ex_registration]\<rparr>"
  have h1: "\<not> lock ?s" by (simp add: ex_node_def)
  have h2: "pooled (rev ex_registration) (pending_transactions ?s)"
    by (simp add: pooled_def example_defs)
  have h3: "has_key (rev ex_registration) ''timestamp''" by (simp add: example_defs tx_defs)
  from resubmission_leaves_pool[OF h1 h2, of demo_digest demo_now ex_peer] h1 h2 h3
  show ?thesis by simp
qed

end
